theory Spec2Isabelle
  imports Main "HOL-Library.Multiset" "HOL-Library.Sublist"
begin

section \<open>Data model\<close>

text \<open>
  The node record of \<^verbatim>\<open>types/pnode.ts\<close> as the services use it. A field that the code
  tests for truthiness (\<^verbatim>\<open>!node.pubkey\<close>, \<^verbatim>\<open>node.address || node.ip\<close>) is a
  \<open>string option\<close>: \<open>None\<close> is \<^verbatim>\<open>undefined\<close>, and both \<open>None\<close> and the empty string are
  falsy.
\<close>

datatype node_status = Online | Offline

record PNode =
  pubkey :: "string option"
  status :: node_status
  version :: string
  storageUsed :: nat
  storageTotal :: nat
  uptime :: nat
  address :: "string option"
  ip :: "string option"
  lastSeen :: string
  ramUsed :: "nat option"
  ramTotal :: "nat option"

record NodeStats =
  cpu_percent :: nat
  ram_used :: nat
  ram_total :: nat
  active_streams :: nat

text \<open>JavaScript truthiness of an optional string, and \<^verbatim>\<open>a || b\<close> on two of them.\<close>

fun truthy :: "string option \<Rightarrow> bool" where
  "truthy None = False"
| "truthy (Some s) = (s \<noteq> [])"

definition or_else :: "string option \<Rightarrow> string option \<Rightarrow> string option" where
  "or_else a b = (if truthy a then a else b)"

section \<open>Effects: exceptions, the call log and the caches\<close>

text \<open>A thrown exception (or a rejected promise) is a value carrying its message.\<close>

datatype error = Error string

type_synonym 'a result = "error + 'a"

text \<open>Every request that leaves the process is appended to a log, in the order issued.\<close>

datatype call =
    PrimaryGetPodsWithStats
  | PrimaryGetPods
  | FallbackGetPods string
  | NodeGetStats string

text \<open>
  Modelled from the spec: the cache services of \<^verbatim>\<open>redis.service.ts\<close>, which is not part of
  the sources at hand. A cache is the finite map of its live entries at the time of the
  call, each with the TTL (in milliseconds) it was written with; \<open>get\<close> answers the value or
  a miss, \<open>set\<close> stores value and TTL under the key, and neither of them throws (the tiered
  cache degrades silently).
\<close>

type_synonym 'v cache = "string \<rightharpoonup> ('v \<times> nat)"

definition cache_get :: "'v cache \<Rightarrow> string \<Rightarrow> 'v option" where
  "cache_get c k = map_option fst (c k)"

definition cache_set :: "'v cache \<Rightarrow> string \<Rightarrow> 'v \<Rightarrow> nat \<Rightarrow> 'v cache" where
  "cache_set c k v ttl = c(k \<mapsto> (v, ttl))"

record world =
  nodeCache :: "PNode list cache"
  statsCache :: "NodeStats cache"
  calls :: "call list"

text \<open>
  What the outside answers. The gossip client, the seed list of \<^verbatim>\<open>config/prpc.ts\<close>,
  \<^verbatim>\<open>normalizePNode\<close> of \<^verbatim>\<open>utils/format.ts\<close> and \<^verbatim>\<open>enrichNodesWithCachedStats\<close> of
  \<^verbatim>\<open>stats-enrichment.service.ts\<close> are not part of the sources at hand, so they are
  parameters: a query either throws or yields a response, normalization either throws or
  yields a node, and the enrichment merge reads the stats cache and either throws or yields
  the merged list. A response is its \<^verbatim>\<open>pods\<close> field: the list of raw records, or \<open>None\<close>
  when the field is missing and cannot be iterated.
\<close>

type_synonym 'pod response = "'pod list option"

record 'pod env =
  primaryPodsWithStats :: "'pod response result"
  primaryPods :: "'pod response result"
  SEED_IPS :: "string list"
  fallbackPods :: "string \<Rightarrow> 'pod response result"
  nodeStats :: "string \<Rightarrow> NodeStats option result"
  normalizePNode :: "'pod \<Rightarrow> PNode result"
  enrichNodesWithCachedStats :: "NodeStats cache \<Rightarrow> PNode list \<Rightarrow> PNode list result"

text \<open>
  An \<^verbatim>\<open>async\<close> function takes the world and returns the world it leaves together with
  its value or the exception it threw.
\<close>

type_synonym 'a async = "world \<Rightarrow> world \<times> 'a result"

definition resolve :: "'a \<Rightarrow> 'a async" where
  "resolve v w = (w, Inr v)"

definition reject :: "error \<Rightarrow> 'a async" where
  "reject e w = (w, Inl e)"

definition await_then :: "'a async \<Rightarrow> ('a \<Rightarrow> 'b async) \<Rightarrow> 'b async" where
  "await_then m f w = (case m w of (w', Inl e) \<Rightarrow> (w', Inl e) | (w', Inr v) \<Rightarrow> f v w')"

definition try_catch :: "'a async \<Rightarrow> (error \<Rightarrow> 'a async) \<Rightarrow> 'a async" where
  "try_catch m h w = (case m w of (w', Inl e) \<Rightarrow> h e w' | (w', Inr v) \<Rightarrow> (w', Inr v))"

definition request :: "call \<Rightarrow> 'a result \<Rightarrow> 'a async" where
  "request c answer w = (w\<lparr>calls := calls w @ [c]\<rparr>, answer)"

section \<open>Discovery (\<^verbatim>\<open>pnode.service.ts\<close>)\<close>

definition CACHE_KEY :: string where
  "CACHE_KEY = ''pnodes''"

definition CACHE_TTL_MS :: nat where
  "CACHE_TTL_MS = 30 * 1000"

text \<open>\<^verbatim>\<open>for (const pod of response.pods)\<close> throws a \<^verbatim>\<open>TypeError\<close> on a missing field.\<close>

definition podsOf :: "'pod response \<Rightarrow> 'pod list async" where
  "podsOf response =
     (case response of
        None \<Rightarrow> reject (Error ''response.pods is not iterable'')
      | Some pods \<Rightarrow> resolve pods)"

text \<open>
  The loop over \<^verbatim>\<open>response.pods\<close>: a record whose normalization throws is skipped by the
  inner \<^verbatim>\<open>catch\<close>, a node with a falsy pubkey is not pushed, every other node is pushed
  onto \<^verbatim>\<open>discoveredNodes\<close>.
\<close>

fun processPods :: "('pod \<Rightarrow> PNode result) \<Rightarrow> 'pod list \<Rightarrow> PNode list \<Rightarrow> PNode list" where
  "processPods norm [] discoveredNodes = discoveredNodes"
| "processPods norm (pod # pods) discoveredNodes =
     (case norm pod of
        Inl e \<Rightarrow> processPods norm pods discoveredNodes
      | Inr normalized \<Rightarrow>
          if truthy (pubkey normalized)
          then processPods norm pods (discoveredNodes @ [normalized])
          else processPods norm pods discoveredNodes)"

text \<open>
  The outer \<^verbatim>\<open>try\<close> block. Its value says whether the block returned
  (\<^verbatim>\<open>return discoveredNodes\<close>) and what \<^verbatim>\<open>discoveredNodes\<close> holds when control leaves it.
\<close>

definition primaryBlock :: "'pod env \<Rightarrow> (bool \<times> PNode list) async" where
  "primaryBlock env =
     try_catch
       (await_then
          (try_catch (request PrimaryGetPodsWithStats (primaryPodsWithStats env))
             (\<lambda>statsError. request PrimaryGetPods (primaryPods env)))
          (\<lambda>response.
             await_then (podsOf response)
               (\<lambda>pods.
                  let discoveredNodes = processPods (normalizePNode env) pods []
                  in resolve (length discoveredNodes > 0, discoveredNodes))))
       (\<lambda>error. resolve (False, []))"

text \<open>
  The fallback loop over \<^verbatim>\<open>SEED_IPS[1..]\<close>; the list argument is what remains of the
  seeds from index \<open>i\<close> on.
\<close>

fun fallbackLoop :: "'pod env \<Rightarrow> string list \<Rightarrow> PNode list \<Rightarrow> PNode list async" where
  "fallbackLoop env [] discoveredNodes w = (w, Inr discoveredNodes)"
| "fallbackLoop env (seed # seeds) discoveredNodes w =
     (if length discoveredNodes \<noteq> 0 then (w, Inr discoveredNodes)
      else
        case try_catch
               (await_then (request (FallbackGetPods seed) (fallbackPods env seed))
                  (\<lambda>response.
                     await_then (podsOf response)
                       (\<lambda>pods.
                          resolve (processPods (normalizePNode env) pods discoveredNodes))))
               (\<lambda>error. resolve discoveredNodes) w of
          (w', Inl e) \<Rightarrow> (w', Inl e)
        | (w', Inr discoveredNodes') \<Rightarrow>
            if length discoveredNodes' > 0 then (w', Inr discoveredNodes')
            else fallbackLoop env seeds discoveredNodes' w')"

definition discoverPNodesViaGossip :: "'pod env \<Rightarrow> PNode list async" where
  "discoverPNodesViaGossip env =
     await_then (primaryBlock env)
       (\<lambda>(returned, discoveredNodes).
          if returned then resolve discoveredNodes
          else fallbackLoop env (drop 1 (SEED_IPS env)) discoveredNodes)"

section \<open>The node-set cache (\<^verbatim>\<open>getAllPNodes\<close>, \<^verbatim>\<open>getPNodeByPubkey\<close>)\<close>

text \<open>
  The deduplication loop of \<^verbatim>\<open>getAllPNodes\<close>: \<^verbatim>\<open>seen\<close> is the \<^verbatim>\<open>Map\<close> from pubkey to
  node, \<^verbatim>\<open>uniqueNodes\<close> the array that is pushed to. A node with a falsy pubkey
  (\<^verbatim>\<open>undefined\<close> or the empty string) takes the \<^verbatim>\<open>continue\<close>.
\<close>

fun dedupLoop :: "PNode list \<Rightarrow> (string \<rightharpoonup> PNode) \<Rightarrow> PNode list \<Rightarrow> PNode list" where
  "dedupLoop [] seen uniqueNodes = uniqueNodes"
| "dedupLoop (node # nodes) seen uniqueNodes =
     (case pubkey node of
        None \<Rightarrow> dedupLoop nodes seen uniqueNodes
      | Some k \<Rightarrow>
          if k = [] then dedupLoop nodes seen uniqueNodes
          else if seen k = None
          then dedupLoop nodes (seen(k \<mapsto> node)) (uniqueNodes @ [node])
          else dedupLoop nodes seen uniqueNodes)"

text \<open>
  A cached array is truthy even when it is empty, so every live entry under the key is a
  hit.
\<close>

definition getAllPNodes :: "'pod env \<Rightarrow> PNode list async" where
  "getAllPNodes env w =
     (case cache_get (nodeCache w) CACHE_KEY of
        Some cached \<Rightarrow> (w, enrichNodesWithCachedStats env (statsCache w) cached)
      | None \<Rightarrow>
          await_then (discoverPNodesViaGossip env)
            (\<lambda>nodes w1.
               let uniqueNodes = dedupLoop nodes Map.empty [];
                   w2 = w1\<lparr>nodeCache :=
                          cache_set (nodeCache w1) CACHE_KEY uniqueNodes CACHE_TTL_MS\<rparr>
               in (w2, enrichNodesWithCachedStats env (statsCache w2) uniqueNodes)) w)"

definition getPNodeByPubkey :: "'pod env \<Rightarrow> string \<Rightarrow> PNode option async" where
  "getPNodeByPubkey env key =
     await_then (getAllPNodes env)
       (\<lambda>nodes. resolve (find (\<lambda>node. pubkey node = Some key) nodes))"

section \<open>Per-node stats (\<^verbatim>\<open>getNodeStatsByPubkey\<close>)\<close>

definition STATS_CACHE_TTL_MS :: nat where
  "STATS_CACHE_TTL_MS = 120 * 1000"

definition stats_cache_key :: "string \<Rightarrow> string" where
  "stats_cache_key key = ''node_stats_'' @ key"

text \<open>\<^verbatim>\<open>nodeAddress.split(':')[0]\<close>: the text before the first colon.\<close>

definition host_of :: "string \<Rightarrow> string" where
  "host_of nodeAddress = takeWhile (\<lambda>c. c \<noteq> CHR '':'') nodeAddress"

text \<open>
  The body of the \<^verbatim>\<open>try\<close> block, in two parts: the checks on the node that the lookup
  found, and the direct fetch. The fetch answers \<open>None\<close> when the client resolves to a
  falsy value; only a truthy \<^verbatim>\<open>stats\<close> is written to the cache.
  A falsy \<^verbatim>\<open>nodeAddress\<close> (\<^verbatim>\<open>undefined\<close> or empty) returns \<^verbatim>\<open>null\<close> before the fetch.
\<close>

definition fetchAndCacheStats :: "'pod env \<Rightarrow> string \<Rightarrow> string \<Rightarrow> NodeStats option async" where
  "fetchAndCacheStats env key nodeAddress =
     await_then (request (NodeGetStats (host_of nodeAddress)) (nodeStats env (host_of nodeAddress)))
       (\<lambda>stats w.
          case stats of
            None \<Rightarrow> (w, Inr None)
          | Some s \<Rightarrow>
              (w\<lparr>statsCache :=
                   cache_set (statsCache w) (stats_cache_key key) s STATS_CACHE_TTL_MS\<rparr>,
               Inr (Some s)))"

definition statsOfFound :: "'pod env \<Rightarrow> string \<Rightarrow> PNode option \<Rightarrow> NodeStats option async" where
  "statsOfFound env key found =
     (case found of
        None \<Rightarrow> resolve None
      | Some node \<Rightarrow>
          if status node \<noteq> Online then resolve None
          else
            (case or_else (address node) (ip node) of
               None \<Rightarrow> resolve None
             | Some nodeAddress \<Rightarrow>
                 if nodeAddress = [] then resolve None
                 else fetchAndCacheStats env key nodeAddress))"

definition getNodeStatsByPubkey :: "'pod env \<Rightarrow> string \<Rightarrow> NodeStats option async" where
  "getNodeStatsByPubkey env key w =
     (case cache_get (statsCache w) (stats_cache_key key) of
        Some cached \<Rightarrow> (w, Inr (Some cached))
      | None \<Rightarrow>
          try_catch (await_then (getPNodeByPubkey env key) (statsOfFound env key))
            (\<lambda>error. resolve None) w)"

text \<open>The requests sent directly to single nodes, as they appear in the log.\<close>

fun isNodeStatsCall :: "call \<Rightarrow> bool" where
  "isNodeStatsCall (NodeGetStats host) = True"
| "isNodeStatsCall c = False"

definition statsFetches :: "world \<Rightarrow> call list" where
  "statsFetches w = filter isNodeStatsCall (calls w)"

section \<open>Online status (\<^verbatim>\<open>verifyPRPCSource\<close>)\<close>

text \<open>
  \<^verbatim>\<open>now\<close> is \<^verbatim>\<open>Date.now()\<close> in milliseconds, \<^verbatim>\<open>last_seen_timestamp\<close> is a whole
  number of seconds. A \<^verbatim>\<open>Date\<close> holds a time value of at most 8.64e15 milliseconds on
  either side of the epoch; \<^verbatim>\<open>new Date(v)\<close> beyond that is an Invalid Date, whose
  \<^verbatim>\<open>getTime()\<close> is \<^verbatim>\<open>NaN\<close>. A date is its time value, \<open>None\<close> for the Invalid Date, and
  a number that may be \<^verbatim>\<open>NaN\<close> is an \<open>int option\<close> in the same way.
\<close>

definition MAX_TIME_VALUE :: int where
  "MAX_TIME_VALUE = 8640000000000000"

definition newDate :: "int \<Rightarrow> int option" where
  "newDate v = (if abs v \<le> MAX_TIME_VALUE then Some v else None)"

text \<open>
  \<^verbatim>\<open>Math.floor((now - lastSeenDate.getTime()) / 1000)\<close>: \<open>div\<close> on \<open>int\<close> rounds down, for
  negative differences as well, and \<^verbatim>\<open>NaN\<close> stays \<^verbatim>\<open>NaN\<close>. The integers are exact; the
  doubles of the code give the same quotient while the difference is below \<open>2 ^ 53\<close>, and
  the same answer to the comparison with 300 for every time value.
\<close>

definition secondsAgo :: "int \<Rightarrow> int option \<Rightarrow> int option" where
  "secondsAgo now lastSeenDate =
     (case lastSeenDate of
        None \<Rightarrow> None
      | Some lastSeenTime \<Rightarrow> Some ((now - lastSeenTime) div 1000))"

text \<open>\<^verbatim>\<open>secondsAgo < 300\<close>, the threshold written into the script; \<^verbatim>\<open>NaN < 300\<close> is false.\<close>

definition isOnline :: "int option \<Rightarrow> bool" where
  "isOnline seconds = (case seconds of None \<Rightarrow> False | Some n \<Rightarrow> n < 300)"

text \<open>
  \<^verbatim>\<open>lastSeenDate.toISOString()\<close> throws a \<^verbatim>\<open>RangeError\<close> on the Invalid Date; the text it
  returns otherwise is not modelled.
\<close>

definition toISOString :: "int option \<Rightarrow> unit result" where
  "toISOString date =
     (case date of
        None \<Rightarrow> Inl (Error ''RangeError: Invalid time value'')
      | Some v \<Rightarrow> Inr ())"

text \<open>
  The block under \<^verbatim>\<open>if (pod.last_seen_timestamp)\<close>. A missing or zero timestamp skips the
  block and derives no status (\<open>Inr None\<close>); the \<^verbatim>\<open>RangeError\<close> leaves the block before the
  status line is printed.
\<close>

definition derivedStatus :: "int \<Rightarrow> int option \<Rightarrow> node_status option result" where
  "derivedStatus now ts =
     (case ts of
        None \<Rightarrow> Inr None
      | Some last_seen_timestamp \<Rightarrow>
          if last_seen_timestamp = 0 then Inr None
          else
            let lastSeenDate = newDate (last_seen_timestamp * 1000);
                seconds = secondsAgo now lastSeenDate;
                online = isOnline seconds
            in (case toISOString lastSeenDate of
                  Inl e \<Rightarrow> Inl e
                | Inr printed \<Rightarrow> Inr (Some (if online then Online else Offline))))"

text \<open>
  The rule in the words of the specification, with both instants in milliseconds: online
  iff \<open>now - lastObservedAt\<close> is below the threshold, given in seconds.
\<close>

definition spec_online :: "int \<Rightarrow> int \<Rightarrow> int \<Rightarrow> bool" where
  "spec_online onlineThresholdSeconds now lastObservedAt =
     (now - lastObservedAt < onlineThresholdSeconds * 1000)"

section \<open>Geographic summary (\<^verbatim>\<open>map.service.ts\<close>)\<close>

text \<open>The fields of a map node that the summary reads, with its identity.\<close>

record MapNode =
  nodePubkey :: "string option"
  country :: string
  region :: string

text \<open>
  A JavaScript \<^verbatim>\<open>Map\<close> iterates in insertion order, so it is an association list:
  \<^verbatim>\<open>set\<close> on a present key replaces the value in place, on a new key it appends.
\<close>

fun map_set :: "('k \<times> 'v) list \<Rightarrow> 'k \<Rightarrow> 'v \<Rightarrow> ('k \<times> 'v) list" where
  "map_set [] k v = [(k, v)]"
| "map_set ((k', v') # m) k v =
     (if k' = k then (k, v) # m else (k', v') # map_set m k v)"

definition map_get_or_0 :: "('k \<times> nat) list \<Rightarrow> 'k \<Rightarrow> nat" where
  "map_get_or_0 m k = (case map_of m k of None \<Rightarrow> 0 | Some c \<Rightarrow> c)"

fun countBy :: "(MapNode \<Rightarrow> string) \<Rightarrow> MapNode list \<Rightarrow> (string \<times> nat) list
    \<Rightarrow> (string \<times> nat) list" where
  "countBy f [] m = m"
| "countBy f (node # nodes) m = countBy f nodes (map_set m (f node) (map_get_or_0 m (f node) + 1))"

text \<open>
  \<^verbatim>\<open>sort((a, b) => b.count - a.count)\<close>: a stable sort by descending count, which is
  the insertion sort of the library on the negated count.
\<close>

definition sortByCountDesc :: "(string \<times> nat) list \<Rightarrow> (string \<times> nat) list" where
  "sortByCountDesc entries = sort_key (\<lambda>(name, count). - int count) entries"

record GeoSummary =
  countries :: "(string \<times> nat) list"
  regions :: "(string \<times> nat) list"

text \<open>\<^verbatim>\<open>getGeoSummary\<close> on the list that \<^verbatim>\<open>getMapNodes\<close> resolved to.\<close>

definition getGeoSummary :: "MapNode list \<Rightarrow> GeoSummary" where
  "getGeoSummary mapNodes =
     (let countryMap = countBy country mapNodes [];
          regionMap = countBy region mapNodes []
      in \<lparr>countries = sortByCountDesc countryMap, regions = sortByCountDesc regionMap\<rparr>)"

section \<open>Vocabulary for the statements\<close>

text \<open>
  The usable nodes that one query yields: none when the query throws or its response has
  no list of records, otherwise what the loop over the records pushes onto an empty
  \<^verbatim>\<open>discoveredNodes\<close>.
\<close>

definition usableOf :: "'pod env \<Rightarrow> 'pod response result \<Rightarrow> PNode list" where
  "usableOf env answer =
     (case answer of
        Inl e \<Rightarrow> []
      | Inr None \<Rightarrow> []
      | Inr (Some pods) \<Rightarrow> processPods (normalizePNode env) pods [])"

text \<open>
  What the primary endpoint answers in the end (the listing with stats, or the plain listing
  when the first request throws), and the requests this costs.
\<close>

definition primaryResponse :: "'pod env \<Rightarrow> 'pod response result" where
  "primaryResponse env =
     (case primaryPodsWithStats env of
        Inl statsError \<Rightarrow> primaryPods env
      | Inr response \<Rightarrow> Inr response)"

definition primaryCalls :: "'pod env \<Rightarrow> call list" where
  "primaryCalls env =
     (case primaryPodsWithStats env of
        Inl statsError \<Rightarrow> [PrimaryGetPodsWithStats, PrimaryGetPods]
      | Inr response \<Rightarrow> [PrimaryGetPodsWithStats])"

text \<open>The world after some more requests have been logged.\<close>

definition logged :: "world \<Rightarrow> call list \<Rightarrow> world" where
  "logged w cs = w\<lparr>calls := calls w @ cs\<rparr>"

text \<open>
  The deduplication loop without its accumulators: \<open>S\<close> is the set of keys of
  \<^verbatim>\<open>seen\<close>, the result is what the loop appends to \<^verbatim>\<open>uniqueNodes\<close>.
\<close>

fun keepFirst :: "string set \<Rightarrow> PNode list \<Rightarrow> PNode list" where
  "keepFirst S [] = []"
| "keepFirst S (node # nodes) =
     (case pubkey node of
        None \<Rightarrow> keepFirst S nodes
      | Some k \<Rightarrow>
          if k = [] \<or> k \<in> S then keepFirst S nodes
          else node # keepFirst (insert k S) nodes)"

section \<open>Example inputs\<close>

text \<open>
  Raw records are pairs of a pubkey and an address; normalization throws on a record
  without address. The example merge copies the cached RAM figures into a node.
\<close>

definition mkNode :: "string \<Rightarrow> string \<Rightarrow> node_status \<Rightarrow> PNode" where
  "mkNode k a st =
     \<lparr>pubkey = Some k, status = st, version = ''0.8.0'', storageUsed = 0, storageTotal = 0,
      uptime = 0, address = Some a, ip = None, lastSeen = ''2025-01-01T00:00:00.000Z'',
      ramUsed = None, ramTotal = None\<rparr>"

definition exampleNormalize :: "string \<times> string \<Rightarrow> PNode result" where
  "exampleNormalize pod =
     (if snd pod = [] then Inl (Error ''malformed record'')
      else Inr (mkNode (fst pod) (snd pod) Online))"

definition exampleStats :: NodeStats where
  "exampleStats = \<lparr>cpu_percent = 12, ram_used = 2048, ram_total = 8192, active_streams = 3\<rparr>"

definition mergeStats :: "NodeStats cache \<Rightarrow> PNode \<Rightarrow> PNode" where
  "mergeStats c node =
     (case pubkey node of
        None \<Rightarrow> node
      | Some k \<Rightarrow>
          (case cache_get c (stats_cache_key k) of
             None \<Rightarrow> node
           | Some s \<Rightarrow> node\<lparr>ramUsed := Some (ram_used s), ramTotal := Some (ram_total s)\<rparr>))"

definition exampleEnrich :: "NodeStats cache \<Rightarrow> PNode list \<Rightarrow> PNode list result" where
  "exampleEnrich c nodes = Inr (map (mergeStats c) nodes)"

definition exampleSeeds :: "string list" where
  "exampleSeeds = [''173.212.220.65'', ''161.97.97.41'', ''192.190.136.36'', ''192.190.136.38'']"

definition scenarioA :: "(string \<times> string) env" where
  "scenarioA =
     \<lparr>primaryPodsWithStats =
        Inr (Some [(''X'', ''10.0.0.1:9001''), (''Y'', ''10.0.0.2:9001''),
                   (''X'', ''10.0.0.3:9001'')]),
      primaryPods = Inl (Error ''timeout''),
      SEED_IPS = exampleSeeds,
      fallbackPods = (\<lambda>seed. Inl (Error ''ECONNREFUSED'')),
      nodeStats = (\<lambda>host. if host = ''10.0.0.1'' then Inr (Some exampleStats)
                           else Inl (Error ''timeout'')),
      normalizePNode = exampleNormalize,
      enrichNodesWithCachedStats = exampleEnrich\<rparr>"

definition fivePods :: "(string \<times> string) list" where
  "fivePods = [(''A'', ''10.0.1.1:9001''), (''B'', ''10.0.1.2:9001''), (''C'', ''10.0.1.3:9001''),
               (''D'', ''10.0.1.4:9001''), (''E'', ''10.0.1.5:9001'')]"

definition scenarioB :: "(string \<times> string) env" where
  "scenarioB =
     \<lparr>primaryPodsWithStats = Inl (Error ''timeout''),
      primaryPods = Inl (Error ''timeout''),
      SEED_IPS = exampleSeeds,
      fallbackPods = (\<lambda>seed. if seed = ''161.97.97.41'' then Inr (Some fivePods)
                              else Inl (Error ''ECONNREFUSED'')),
      nodeStats = (\<lambda>host. Inl (Error ''timeout'')),
      normalizePNode = exampleNormalize,
      enrichNodesWithCachedStats = exampleEnrich\<rparr>"

definition scenarioB2 :: "(string \<times> string) env" where
  "scenarioB2 =
     \<lparr>primaryPodsWithStats = Inr (Some [(''A'', ''''), ('''', ''10.0.1.9:9001'')]),
      primaryPods = Inl (Error ''timeout''),
      SEED_IPS = exampleSeeds,
      fallbackPods = (\<lambda>seed. if seed = ''192.190.136.36'' then Inr (Some fivePods)
                              else Inl (Error ''ECONNREFUSED'')),
      nodeStats = (\<lambda>host. Inl (Error ''timeout'')),
      normalizePNode = exampleNormalize,
      enrichNodesWithCachedStats = exampleEnrich\<rparr>"

definition scenarioDown :: "(string \<times> string) env" where
  "scenarioDown =
     \<lparr>primaryPodsWithStats = Inl (Error ''timeout''),
      primaryPods = Inr (Some [(''A'', '''')]),
      SEED_IPS = exampleSeeds,
      fallbackPods = (\<lambda>seed. if seed = ''161.97.97.41'' then Inr (Some [('''', ''10.0.1.9:9001'')])
                              else if seed = ''192.190.136.36'' then Inr None
                              else Inl (Error ''ECONNREFUSED'')),
      nodeStats = (\<lambda>host. Inl (Error ''timeout'')),
      normalizePNode = exampleNormalize,
      enrichNodesWithCachedStats = exampleEnrich\<rparr>"

definition emptyWorld :: world where
  "emptyWorld = \<lparr>nodeCache = Map.empty, statsCache = Map.empty, calls = []\<rparr>"

definition offlineWorld :: world where
  "offlineWorld =
     \<lparr>nodeCache = [CACHE_KEY \<mapsto> ([mkNode ''X'' ''10.0.0.1:9001'' Offline], CACHE_TTL_MS)],
      statsCache = Map.empty, calls = []\<rparr>"

definition offlineCachedWorld :: world where
  "offlineCachedWorld =
     \<lparr>nodeCache = [CACHE_KEY \<mapsto> ([mkNode ''X'' ''10.0.0.1:9001'' Offline], CACHE_TTL_MS)],
      statsCache = [stats_cache_key ''X'' \<mapsto> (exampleStats, STATS_CACHE_TTL_MS)],
      calls = []\<rparr>"

definition afterPrimary :: world where
  "afterPrimary = \<lparr>nodeCache = Map.empty, statsCache = Map.empty, calls = [PrimaryGetPodsWithStats]\<rparr>"

definition afterListing :: world where
  "afterListing =
     \<lparr>nodeCache = [CACHE_KEY \<mapsto>
        ([mkNode ''X'' ''10.0.0.1:9001'' Online, mkNode ''Y'' ''10.0.0.2:9001'' Online],
         CACHE_TTL_MS)],
      statsCache = Map.empty, calls = [PrimaryGetPodsWithStats]\<rparr>"

lemmas example_defs = mkNode_def exampleNormalize_def exampleStats_def mergeStats_def
  exampleEnrich_def exampleSeeds_def scenarioA_def fivePods_def scenarioB_def scenarioB2_def
  scenarioDown_def emptyWorld_def offlineWorld_def offlineCachedWorld_def afterPrimary_def
  afterListing_def

lemmas model_defs = usableOf_def primaryResponse_def primaryCalls_def logged_def
  cache_get_def cache_set_def CACHE_KEY_def CACHE_TTL_MS_def STATS_CACHE_TTL_MS_def
  stats_cache_key_def host_of_def or_else_def statsFetches_def
  resolve_def reject_def await_then_def try_catch_def request_def podsOf_def primaryBlock_def
  discoverPNodesViaGossip_def getAllPNodes_def getPNodeByPubkey_def
  fetchAndCacheStats_def statsOfFound_def getNodeStatsByPubkey_def Let_def

section \<open>Lemmas about discovery\<close>

lemma logged_Nil [simp]: "logged w [] = w"
  by (simp add: logged_def)

lemma logged_logged [simp]: "logged (logged w cs) ds = logged w (cs @ ds)"
  by (simp add: logged_def)

lemma processPods_acc: "processPods norm pods acc = acc @ processPods norm pods []"
proof (induction pods arbitrary: acc)
  case Nil
  then show ?case by simp
next
  case (Cons pod pods)
  show ?case
  proof (cases "norm pod")
    case (Inl e)
    then show ?thesis using Cons.IH[of acc] by simp
  next
    case (Inr n)
    then show ?thesis using Cons.IH[of acc] Cons.IH[of "acc @ [n]"] Cons.IH[of "[n]"] by simp
  qed
qed

lemma processPods_filter:
  "processPods norm pods [] =
     filter (\<lambda>n. truthy (pubkey n))
       (List.map_filter (\<lambda>pod. case norm pod of Inl e \<Rightarrow> None | Inr n \<Rightarrow> Some n) pods)"
proof (induction pods)
  case Nil
  then show ?case by (simp add: map_filter_simps)
next
  case (Cons pod pods)
  then show ?case
    using processPods_acc[of norm pods "[_]"]
    by (cases "norm pod") (simp_all add: map_filter_simps processPods_acc[of norm pods "[_]"])
qed

lemma primaryBlock_eq:
  "primaryBlock env w =
     (logged w (primaryCalls env),
      Inr (usableOf env (primaryResponse env) \<noteq> [], usableOf env (primaryResponse env)))"
  by (cases "primaryPodsWithStats env"; cases "primaryPods env")
     (simp_all add: primaryBlock_def try_catch_def await_then_def request_def resolve_def
        reject_def podsOf_def logged_def primaryCalls_def primaryResponse_def usableOf_def
        Let_def split: option.splits)

lemma fallback_step:
  "try_catch
     (await_then (request (FallbackGetPods seed) (fallbackPods env seed))
        (\<lambda>response.
           await_then (podsOf response)
             (\<lambda>pods. resolve (processPods (normalizePNode env) pods []))))
     (\<lambda>error. resolve []) w =
   (logged w [FallbackGetPods seed], Inr (usableOf env (fallbackPods env seed)))"
  by (cases "fallbackPods env seed")
     (simp_all add: try_catch_def await_then_def request_def resolve_def reject_def podsOf_def
        logged_def usableOf_def split: option.splits)

lemma fallbackLoop_nonempty:
  "d \<noteq> [] \<Longrightarrow> fallbackLoop env seeds d w = (w, Inr d)"
  by (cases seeds) simp_all

lemma fallbackLoop_exhausted:
  "\<forall>s \<in> set seeds. usableOf env (fallbackPods env s) = [] \<Longrightarrow>
   fallbackLoop env seeds [] w = (logged w (map FallbackGetPods seeds), Inr [])"
proof (induction seeds arbitrary: w)
  case Nil
  then show ?case by simp
next
  case (Cons seed seeds)
  then show ?case by (simp add: fallback_step)
qed

lemma fallbackLoop_first:
  "\<forall>s \<in> set pre. usableOf env (fallbackPods env s) = [] \<Longrightarrow>
   usableOf env (fallbackPods env seed) \<noteq> [] \<Longrightarrow>
   fallbackLoop env (pre @ seed # post) [] w =
     (logged w (map FallbackGetPods (pre @ [seed])), Inr (usableOf env (fallbackPods env seed)))"
proof (induction pre arbitrary: w)
  case Nil
  then show ?case by (simp add: fallback_step)
next
  case (Cons s pre)
  then show ?case by (simp add: fallback_step)
qed

lemma discover_eq:
  "discoverPNodesViaGossip env w =
     (if usableOf env (primaryResponse env) \<noteq> []
      then (logged w (primaryCalls env), Inr (usableOf env (primaryResponse env)))
      else fallbackLoop env (drop 1 (SEED_IPS env)) [] (logged w (primaryCalls env)))"
  by (simp add: discoverPNodesViaGossip_def await_then_def primaryBlock_eq resolve_def)

lemma fallbackLoop_returns: "\<exists>w' ns. fallbackLoop env seeds [] w = (w', Inr ns)"
proof (induction seeds arbitrary: w)
  case Nil
  then show ?case by simp
next
  case (Cons seed seeds)
  then show ?case by (simp add: fallback_step)
qed

lemma discover_returns: "\<exists>w' ns. discoverPNodesViaGossip env w = (w', Inr ns)"
  using fallbackLoop_returns[of env "drop 1 (SEED_IPS env)" "logged w (primaryCalls env)"]
  by (auto simp: discover_eq)

lemma processPods_append:
  "processPods norm (xs @ ys) acc = processPods norm ys (processPods norm xs acc)"
  by (induction xs arbitrary: acc) (auto split: sum.splits)

lemma fallbackLoop_world:
  "\<exists>n. fst (fallbackLoop env seeds [] w) = logged w (map FallbackGetPods (take n seeds))"
proof (induction seeds arbitrary: w)
  case Nil
  then show ?case by simp
next
  case (Cons seed seeds)
  show ?case
  proof (cases "usableOf env (fallbackPods env seed) = []")
    case True
    obtain n where "fst (fallbackLoop env seeds [] (logged w [FallbackGetPods seed])) =
        logged (logged w [FallbackGetPods seed]) (map FallbackGetPods (take n seeds))"
      using Cons.IH by blast
    then have "fst (fallbackLoop env (seed # seeds) [] w) =
        logged w (map FallbackGetPods (take (Suc n) (seed # seeds)))"
      using True by (simp add: fallback_step)
    then show ?thesis by blast
  next
    case False
    then have "fst (fallbackLoop env (seed # seeds) [] w) =
        logged w (map FallbackGetPods (take 1 (seed # seeds)))"
      by (simp add: fallback_step)
    then show ?thesis by blast
  qed
qed

lemma discover_world:
  "\<exists>cs. fst (discoverPNodesViaGossip env w) = logged w cs \<and> filter isNodeStatsCall cs = []"
proof (cases "usableOf env (primaryResponse env) = []")
  case True
  obtain n where "fst (fallbackLoop env (drop 1 (SEED_IPS env)) [] (logged w (primaryCalls env))) =
      logged (logged w (primaryCalls env)) (map FallbackGetPods (take n (drop 1 (SEED_IPS env))))"
    using fallbackLoop_world by blast
  then have "fst (discoverPNodesViaGossip env w) =
      logged w (primaryCalls env @ map FallbackGetPods (take n (drop 1 (SEED_IPS env))))"
    using True by (simp add: discover_eq)
  moreover have "filter isNodeStatsCall
      (primaryCalls env @ map FallbackGetPods (take n (drop 1 (SEED_IPS env)))) = []"
    by (simp add: primaryCalls_def filter_empty_conv split: sum.splits)
  ultimately show ?thesis by blast
next
  case False
  then have "fst (discoverPNodesViaGossip env w) = logged w (primaryCalls env)"
    by (simp add: discover_eq)
  moreover have "filter isNodeStatsCall (primaryCalls env) = []"
    by (simp add: primaryCalls_def split: sum.splits)
  ultimately show ?thesis by blast
qed

section \<open>Lemmas about the deduplication loop\<close>

lemma dedupLoop_keepFirst:
  "dedupLoop nodes seen uniqueNodes = uniqueNodes @ keepFirst (dom seen) nodes"
proof (induction nodes arbitrary: seen uniqueNodes)
  case Nil
  then show ?case by simp
next
  case (Cons node nodes)
  show ?case
  proof (cases "pubkey node")
    case None
    then show ?thesis by (simp add: Cons.IH)
  next
    case (Some k)
    have "dom (\<lambda>a. if a = k then Some node else seen a) = insert k (dom seen)"
      by (auto simp: dom_def)
    then show ?thesis using Some by (simp add: Cons.IH domIff)
  qed
qed

lemma keepFirst_pubkeys:
  "pubkey ` set (keepFirst S nodes) = {p \<in> pubkey ` set nodes. truthy p \<and> p \<notin> Some ` S}"
proof (induction nodes arbitrary: S)
  case Nil
  then show ?case by simp
next
  case (Cons node nodes)
  show ?case
  proof (cases "pubkey node")
    case None
    then show ?thesis using Cons.IH[of S] by auto
  next
    case (Some k)
    show ?thesis
    proof (cases "k = [] \<or> k \<in> S")
      case True
      then show ?thesis using Some Cons.IH[of S] by auto
    next
      case False
      then show ?thesis using Some Cons.IH[of "insert k S"] by auto
    qed
  qed
qed

lemma keepFirst_distinct: "distinct (map pubkey (keepFirst S nodes))"
proof (induction nodes arbitrary: S)
  case Nil
  then show ?case by simp
next
  case (Cons node nodes)
  show ?case
  proof (cases "pubkey node")
    case None
    then show ?thesis using Cons.IH[of S] by simp
  next
    case (Some k)
    have "Some k \<notin> pubkey ` set (keepFirst (insert k S) nodes)"
      by (simp add: keepFirst_pubkeys)
    then show ?thesis using Some Cons.IH by simp
  qed
qed

lemma keepFirst_subseq: "subseq (keepFirst S nodes) nodes"
  by (induction nodes arbitrary: S) (auto split: option.splits)

lemma keepFirst_first:
  "n \<in> set (keepFirst S nodes) \<Longrightarrow> find (\<lambda>m. pubkey m = pubkey n) nodes = Some n"
proof (induction nodes arbitrary: S)
  case Nil
  then show ?case by simp
next
  case (Cons node nodes)
  show ?case
  proof (cases "pubkey node")
    case None
    moreover have "truthy (pubkey n)"
      using Cons.prems keepFirst_pubkeys[of S "node # nodes"] by auto
    ultimately show ?thesis using Cons by auto
  next
    case (Some k)
    show ?thesis
    proof (cases "k = [] \<or> k \<in> S")
      case True
      have "truthy (pubkey n) \<and> pubkey n \<notin> Some ` S"
        using Cons.prems keepFirst_pubkeys[of S "node # nodes"] by auto
      then have "pubkey node \<noteq> pubkey n" using True Some by (cases "pubkey n") auto
      then show ?thesis using Cons True Some by auto
    next
      case False
      show ?thesis
      proof (cases "n = node")
        case True
        then show ?thesis by simp
      next
        case False2: False
        then have in_rest: "n \<in> set (keepFirst (insert k S) nodes)"
          using Cons.prems False Some by auto
        then have "pubkey n \<notin> Some ` insert k S"
          using keepFirst_pubkeys[of "insert k S" nodes] by auto
        then have "pubkey node \<noteq> pubkey n" using Some by auto
        then show ?thesis using Cons.IH[OF in_rest] by simp
      qed
    qed
  qed
qed

lemma dedup_length:
  "length (dedupLoop nodes Map.empty []) = card {p \<in> pubkey ` set nodes. truthy p}"
proof -
  have "length (keepFirst {} nodes) = card (pubkey ` set (keepFirst {} nodes))"
    using keepFirst_distinct[of "{}" nodes] by (metis distinct_card length_map set_map)
  then show ?thesis by (simp add: dedupLoop_keepFirst keepFirst_pubkeys)
qed

section \<open>Lemmas about the cached listing and the stats lookup\<close>

lemma getAllPNodes_hit:
  "cache_get (nodeCache w) CACHE_KEY = Some cached \<Longrightarrow>
   getAllPNodes env w = (w, enrichNodesWithCachedStats env (statsCache w) cached)"
  by (simp add: getAllPNodes_def)

lemma getAllPNodes_miss:
  "cache_get (nodeCache w) CACHE_KEY = None \<Longrightarrow>
   discoverPNodesViaGossip env w = (w1, Inr nodes) \<Longrightarrow>
   getAllPNodes env w =
     (w1\<lparr>nodeCache := cache_set (nodeCache w1) CACHE_KEY (dedupLoop nodes Map.empty []) CACHE_TTL_MS\<rparr>,
      enrichNodesWithCachedStats env (statsCache w1) (dedupLoop nodes Map.empty []))"
  by (simp add: getAllPNodes_def await_then_def Let_def)

lemma getAllPNodes_world:
  "statsCache (fst (getAllPNodes env w)) = statsCache w \<and>
   statsFetches (fst (getAllPNodes env w)) = statsFetches w"
proof (cases "cache_get (nodeCache w) CACHE_KEY")
  case None
  obtain w1 nodes where d: "discoverPNodesViaGossip env w = (w1, Inr nodes)"
    using discover_returns by blast
  obtain cs where cs: "w1 = logged w cs" "filter isNodeStatsCall cs = []"
    using discover_world[of env w] d by auto
  show ?thesis
    using getAllPNodes_miss[OF None d] cs by (simp add: statsFetches_def logged_def)
next
  case (Some cached)
  then show ?thesis by (simp add: getAllPNodes_hit)
qed

lemma getPNodeByPubkey_eq:
  "getPNodeByPubkey env key w =
     (case getAllPNodes env w of
        (w', Inl e) \<Rightarrow> (w', Inl e)
      | (w', Inr nodes) \<Rightarrow> (w', Inr (find (\<lambda>node. pubkey node = Some key) nodes)))"
  by (simp add: getPNodeByPubkey_def await_then_def resolve_def split: prod.splits sum.splits)

lemma getPNodeByPubkey_world:
  "statsCache (fst (getPNodeByPubkey env key w)) = statsCache w \<and>
   statsFetches (fst (getPNodeByPubkey env key w)) = statsFetches w"
  using getAllPNodes_world[of env w]
  by (auto simp: getPNodeByPubkey_eq split: prod.splits sum.splits)

lemma fetchAndCacheStats_eq:
  "fetchAndCacheStats env key a w =
     (case nodeStats env (host_of a) of
        Inl e \<Rightarrow> (logged w [NodeGetStats (host_of a)], Inl e)
      | Inr None \<Rightarrow> (logged w [NodeGetStats (host_of a)], Inr None)
      | Inr (Some s) \<Rightarrow>
          ((logged w [NodeGetStats (host_of a)])
             \<lparr>statsCache := cache_set (statsCache w) (stats_cache_key key) s STATS_CACHE_TTL_MS\<rparr>,
           Inr (Some s)))"
  by (simp add: fetchAndCacheStats_def await_then_def request_def logged_def
      split: sum.splits option.splits)

lemma statsOfFound_cache:
  assumes "statsOfFound env key found w1 = (w2, r2)"
  shows "statsCache w2 = statsCache w1 \<or>
         (\<exists>host s. nodeStats env host = Inr (Some s) \<and> r2 = Inr (Some s) \<and>
            statsCache w2 = cache_set (statsCache w1) (stats_cache_key key) s STATS_CACHE_TTL_MS)"
proof (cases found)
  case None
  then show ?thesis using assms by (simp add: statsOfFound_def resolve_def)
next
  case (Some node)
  show ?thesis
  proof (cases "status node \<noteq> Online")
    case True
    then show ?thesis using assms Some by (simp add: statsOfFound_def resolve_def)
  next
    case False
    show ?thesis
    proof (cases "or_else (address node) (ip node)")
      case None
      then show ?thesis using assms Some False by (simp add: statsOfFound_def resolve_def)
    next
      case (Some a)
      show ?thesis
      proof (cases "a = []")
        case True
        then show ?thesis
          using assms \<open>found = Some node\<close> False Some by (simp add: statsOfFound_def resolve_def)
      next
        case nonempty: False
        have f: "fetchAndCacheStats env key a w1 = (w2, r2)"
          using assms \<open>found = Some node\<close> False Some nonempty by (simp add: statsOfFound_def)
        show ?thesis
        proof (cases "nodeStats env (host_of a)")
          case (Inl e)
          then show ?thesis using f by (auto simp: fetchAndCacheStats_eq logged_def)
        next
          case (Inr stats)
          show ?thesis
          proof (cases stats)
            case None
            then show ?thesis using f Inr by (auto simp: fetchAndCacheStats_eq logged_def)
          next
            case (Some s)
            then have "nodeStats env (host_of a) = Inr (Some s) \<and> r2 = Inr (Some s) \<and>
              statsCache w2 = cache_set (statsCache w1) (stats_cache_key key) s STATS_CACHE_TTL_MS"
              using f Inr by (auto simp: fetchAndCacheStats_eq logged_def)
            then show ?thesis by blast
          qed
        qed
      qed
    qed
  qed
qed

lemma getNodeStats_miss:
  assumes "cache_get (statsCache w) (stats_cache_key key) = None"
      and "getPNodeByPubkey env key w = (w1, r1)"
  shows "getNodeStatsByPubkey env key w =
     (case r1 of
        Inl e \<Rightarrow> (w1, Inr None)
      | Inr found \<Rightarrow>
          (case statsOfFound env key found w1 of
             (w2, Inl e) \<Rightarrow> (w2, Inr None)
           | (w2, Inr v) \<Rightarrow> (w2, Inr v)))"
  using assms
  by (simp add: getNodeStatsByPubkey_def try_catch_def await_then_def resolve_def
      split: sum.splits prod.splits)

lemma getNodeStats_only_success_writes:
  assumes "statsCache (fst (getNodeStatsByPubkey env key w)) \<noteq> statsCache w"
  shows "\<exists>host s. nodeStats env host = Inr (Some s) \<and>
           snd (getNodeStatsByPubkey env key w) = Inr (Some s) \<and>
           statsCache (fst (getNodeStatsByPubkey env key w)) =
             cache_set (statsCache w) (stats_cache_key key) s STATS_CACHE_TTL_MS"
proof (cases "cache_get (statsCache w) (stats_cache_key key)")
  case (Some cached)
  then show ?thesis using assms by (simp add: getNodeStatsByPubkey_def)
next
  case None
  obtain w1 r1 where l: "getPNodeByPubkey env key w = (w1, r1)"
    by (cases "getPNodeByPubkey env key w") auto
  have w1: "statsCache w1 = statsCache w"
    using getPNodeByPubkey_world[of env key w] l by simp
  show ?thesis
  proof (cases r1)
    case (Inl e)
    then show ?thesis using assms getNodeStats_miss[OF None l] w1 by simp
  next
    case (Inr found)
    obtain w2 r2 where s: "statsOfFound env key found w1 = (w2, r2)"
      by (cases "statsOfFound env key found w1") auto
    have g: "getNodeStatsByPubkey env key w =
        (case r2 of Inl e \<Rightarrow> (w2, Inr None) | Inr v \<Rightarrow> (w2, Inr v))"
      using getNodeStats_miss[OF None l] Inr s by simp
    then have "statsCache w2 \<noteq> statsCache w1"
      using assms w1 by (auto split: sum.splits)
    then obtain host st where h: "nodeStats env host = Inr (Some st)" "r2 = Inr (Some st)"
        "statsCache w2 = cache_set (statsCache w1) (stats_cache_key key) st STATS_CACHE_TTL_MS"
      using statsOfFound_cache[OF s] by blast
    then show ?thesis using g w1 by auto
  qed
qed

section \<open>Lemmas about the geographic summary\<close>

lemma sum_map_set:
  "sum_list (map snd (map_set m k v)) + map_get_or_0 m k = sum_list (map snd m) + v"
  apply (induction m k v rule: map_set.induct)
   apply (auto simp: map_get_or_0_def)
  done

lemma sum_countBy: "sum_list (map snd (countBy f nodes m)) = sum_list (map snd m) + length nodes"
proof (induction nodes arbitrary: m)
  case Nil then show ?case by simp
next
  case (Cons n ns)
  have "sum_list (map snd (map_set m (f n) (map_get_or_0 m (f n) + 1))) = sum_list (map snd m) + 1"
    using sum_map_set[of m "f n" "map_get_or_0 m (f n) + 1"] by simp
  then show ?case using Cons by simp
qed

lemma sum_sortByCountDesc: "sum_list (map snd (sortByCountDesc m)) = sum_list (map snd m)"
proof -
  have "mset (map snd (sortByCountDesc m)) = mset (map snd m)"
    by (simp add: sortByCountDesc_def)
  then show ?thesis by (metis sum_mset_sum_list)
qed

lemma sorted_sortByCountDesc: "sorted_wrt (\<lambda>a b. a \<ge> b) (map snd (sortByCountDesc m))"
proof -
  have "sorted (map (\<lambda>(name, count). - int count) (sortByCountDesc m))"
    unfolding sortByCountDesc_def by (rule sorted_sort_key)
  then show ?thesis
    by (simp add: sorted_wrt_map sorted_map case_prod_beta)
qed

section \<open>The claims\<close>

subsection \<open>C1\<close>

text \<open>
  Claim C1, as the code has it. \<^verbatim>\<open>discoverPNodesViaGossip\<close> does not deduplicate. Let
  \<open>pods\<close> be the batch it settles on: the answer of the primary endpoint, or, when the
  primary endpoint yields nothing usable, the answer of the first fallback seed that yields
  a usable node. It returns every record of that batch that normalizes to a node with a
  truthy pubkey, in input order and with repeated identities kept. The reduction to one
  node per identity is the loop of \<^verbatim>\<open>getAllPNodes\<close>: run on that list it leaves exactly as
  many nodes as there are distinct identities, each the first occurrence of its identity,
  in the order of the input.
\<close>

theorem discover_keeps_duplicates:
  assumes "primaryResponse env = Inr (Some pods) \<or>
           (usableOf env (primaryResponse env) = [] \<and>
            drop 1 (SEED_IPS env) = pre @ seed # post \<and>
            (\<forall>s \<in> set pre. usableOf env (fallbackPods env s) = []) \<and>
            fallbackPods env seed = Inr (Some pods))"
      and "usableOf env (Inr (Some pods)) \<noteq> []"
  shows "snd (discoverPNodesViaGossip env w) = Inr (usableOf env (Inr (Some pods))) \<and>
         usableOf env (Inr (Some pods)) =
           filter (\<lambda>n. truthy (pubkey n))
             (List.map_filter
                (\<lambda>pod. case normalizePNode env pod of Inl e \<Rightarrow> None | Inr n \<Rightarrow> Some n) pods) \<and>
         length (dedupLoop (usableOf env (Inr (Some pods))) Map.empty []) =
           card (pubkey ` set (usableOf env (Inr (Some pods)))) \<and>
         distinct (map pubkey (dedupLoop (usableOf env (Inr (Some pods))) Map.empty [])) \<and>
         subseq (dedupLoop (usableOf env (Inr (Some pods))) Map.empty [])
           (usableOf env (Inr (Some pods))) \<and>
         (\<forall>n \<in> set (dedupLoop (usableOf env (Inr (Some pods))) Map.empty []).
            find (\<lambda>m. pubkey m = pubkey n) (usableOf env (Inr (Some pods))) = Some n)"
proof -
  let ?u = "usableOf env (Inr (Some pods))"
  have u: "?u = filter (\<lambda>n. truthy (pubkey n))
             (List.map_filter
                (\<lambda>pod. case normalizePNode env pod of Inl e \<Rightarrow> None | Inr n \<Rightarrow> Some n) pods)"
    by (simp add: usableOf_def processPods_filter)
  have all_truthy: "\<forall>n \<in> set ?u. truthy (pubkey n)"
    by (subst u) simp
  have "snd (discoverPNodesViaGossip env w) = Inr ?u"
    using assms(1)
  proof
    assume "primaryResponse env = Inr (Some pods)"
    then show ?thesis using assms(2) by (simp add: discover_eq)
  next
    assume f: "usableOf env (primaryResponse env) = [] \<and>
            drop 1 (SEED_IPS env) = pre @ seed # post \<and>
            (\<forall>s \<in> set pre. usableOf env (fallbackPods env s) = []) \<and>
            fallbackPods env seed = Inr (Some pods)"
    then have nonempty: "usableOf env (fallbackPods env seed) \<noteq> []"
      using assms(2) by simp
    have "fallbackLoop env (pre @ seed # post) [] (logged w (primaryCalls env)) =
        (logged (logged w (primaryCalls env)) (map FallbackGetPods (pre @ [seed])),
         Inr (usableOf env (fallbackPods env seed)))"
      using f nonempty by (intro fallbackLoop_first) auto
    then show ?thesis using f by (simp add: discover_eq del: One_nat_def)
  qed
  moreover have "{p \<in> pubkey ` set ?u. truthy p} = pubkey ` set ?u"
    using all_truthy by auto
  then have "length (dedupLoop ?u Map.empty []) = card (pubkey ` set ?u)"
    by (simp add: dedup_length)
  moreover have "distinct (map pubkey (dedupLoop ?u Map.empty []))"
    by (simp add: dedupLoop_keepFirst keepFirst_distinct)
  moreover have "subseq (dedupLoop ?u Map.empty []) ?u"
    by (simp add: dedupLoop_keepFirst keepFirst_subseq)
  moreover have "\<forall>n \<in> set (dedupLoop ?u Map.empty []).
            find (\<lambda>m. pubkey m = pubkey n) ?u = Some n"
    by (simp add: dedupLoop_keepFirst keepFirst_first)
  ultimately show ?thesis using u by blast
qed

theorem discover_keeps_duplicates_witness:
  "primaryResponse scenarioA =
     Inr (Some [(''X'', ''10.0.0.1:9001''), (''Y'', ''10.0.0.2:9001''), (''X'', ''10.0.0.3:9001'')]) \<and>
   usableOf scenarioA
     (Inr (Some [(''X'', ''10.0.0.1:9001''), (''Y'', ''10.0.0.2:9001''), (''X'', ''10.0.0.3:9001'')])) =
     [mkNode ''X'' ''10.0.0.1:9001'' Online, mkNode ''Y'' ''10.0.0.2:9001'' Online,
      mkNode ''X'' ''10.0.0.3:9001'' Online] \<and>
   snd (discoverPNodesViaGossip scenarioA emptyWorld) =
     Inr (usableOf scenarioA
       (Inr (Some [(''X'', ''10.0.0.1:9001''), (''Y'', ''10.0.0.2:9001''),
                   (''X'', ''10.0.0.3:9001'')]))) \<and>
   length (dedupLoop (usableOf scenarioA
       (Inr (Some [(''X'', ''10.0.0.1:9001''), (''Y'', ''10.0.0.2:9001''),
                   (''X'', ''10.0.0.3:9001'')])))
     Map.empty []) =
     card (pubkey ` set (usableOf scenarioA
       (Inr (Some [(''X'', ''10.0.0.1:9001''), (''Y'', ''10.0.0.2:9001''),
                   (''X'', ''10.0.0.3:9001'')])))) \<and>
   usableOf scenarioB2 (primaryResponse scenarioB2) = [] \<and>
   drop 1 (SEED_IPS scenarioB2) = [''161.97.97.41''] @ ''192.190.136.36'' # [''192.190.136.38''] \<and>
   usableOf scenarioB2 (fallbackPods scenarioB2 ''161.97.97.41'') = [] \<and>
   fallbackPods scenarioB2 ''192.190.136.36'' = Inr (Some fivePods) \<and>
   length (usableOf scenarioB2 (Inr (Some fivePods))) = 5 \<and>
   snd (discoverPNodesViaGossip scenarioB2 emptyWorld) =
     Inr (usableOf scenarioB2 (Inr (Some fivePods)))"
proof -
  let ?pods = "[(''X'', ''10.0.0.1:9001''), (''Y'', ''10.0.0.2:9001''), (''X'', ''10.0.0.3:9001'')]"
  have h1: "primaryResponse scenarioA = Inr (Some ?pods)"
    by (simp add: example_defs model_defs)
  have u: "usableOf scenarioA (Inr (Some ?pods)) =
     [mkNode ''X'' ''10.0.0.1:9001'' Online, mkNode ''Y'' ''10.0.0.2:9001'' Online,
      mkNode ''X'' ''10.0.0.3:9001'' Online]"
    by (simp add: example_defs model_defs)
  have h2: "usableOf scenarioA (Inr (Some ?pods)) \<noteq> []"
    by (simp add: u)
  have b1: "usableOf scenarioB2 (primaryResponse scenarioB2) = []"
    by (simp add: example_defs model_defs)
  have b2: "drop 1 (SEED_IPS scenarioB2) =
      [''161.97.97.41''] @ ''192.190.136.36'' # [''192.190.136.38'']"
    by (simp add: example_defs)
  have b3: "usableOf scenarioB2 (fallbackPods scenarioB2 ''161.97.97.41'') = []"
    by (simp add: example_defs model_defs)
  have b4: "fallbackPods scenarioB2 ''192.190.136.36'' = Inr (Some fivePods)"
    by (simp add: scenarioB2_def)
  have b5: "length (usableOf scenarioB2 (Inr (Some fivePods))) = 5"
    by (simp add: example_defs model_defs)
  have b6: "usableOf scenarioB2 (Inr (Some fivePods)) \<noteq> []"
    using b5 by auto
  have b: "primaryResponse scenarioB2 = Inr (Some fivePods) \<or>
           (usableOf scenarioB2 (primaryResponse scenarioB2) = [] \<and>
            drop 1 (SEED_IPS scenarioB2) =
              [''161.97.97.41''] @ ''192.190.136.36'' # [''192.190.136.38''] \<and>
            (\<forall>s \<in> set [''161.97.97.41'']. usableOf scenarioB2 (fallbackPods scenarioB2 s) = []) \<and>
            fallbackPods scenarioB2 ''192.190.136.36'' = Inr (Some fivePods))"
    using b1 b2 b3 b4 by simp
  show ?thesis
    using discover_keeps_duplicates[where w = emptyWorld, OF disjI1[OF h1] h2]
      discover_keeps_duplicates[where w = emptyWorld, OF b b6] h1 u b1 b2 b3 b4 b5
    by blast
qed

text \<open>
  Scenario A of the specification on \<^verbatim>\<open>discoverPNodesViaGossip\<close> itself: three records, two
  of them with identity \<open>X\<close>, come back as three nodes, not two.
\<close>

theorem discover_dedup_counterexample:
  "snd (discoverPNodesViaGossip scenarioA emptyWorld) =
     Inr [mkNode ''X'' ''10.0.0.1:9001'' Online, mkNode ''Y'' ''10.0.0.2:9001'' Online,
          mkNode ''X'' ''10.0.0.3:9001'' Online] \<and>
   snd (discoverPNodesViaGossip scenarioA emptyWorld) \<noteq>
     Inr [mkNode ''X'' ''10.0.0.1:9001'' Online, mkNode ''Y'' ''10.0.0.2:9001'' Online]"
  by (simp add: example_defs model_defs)

subsection \<open>C2\<close>

text \<open>
  Claim C2. On the cache-miss path the list that \<^verbatim>\<open>getAllPNodes\<close> writes under the node-set
  key is the output of the deduplication loop on the discovered nodes: no two entries share
  a pubkey, every entry has a truthy pubkey, every truthy pubkey of the discovery is
  present, each entry is the first node of the discovery with its pubkey, and the entries
  keep the discovery order. The value returned is the enrichment merge of that list; when
  the merge leaves the sequence of pubkeys as it is, the returned list has no two entries
  with the same pubkey either.
\<close>

theorem getAllPNodes_miss_deduplicates:
  assumes "cache_get (nodeCache w) CACHE_KEY = None"
      and "discoverPNodesViaGossip env w = (w1, Inr nodes)"
      and "\<forall>c xs ys. enrichNodesWithCachedStats env c xs = Inr ys \<longrightarrow> map pubkey ys = map pubkey xs"
  shows "cache_get (nodeCache (fst (getAllPNodes env w))) CACHE_KEY =
           Some (dedupLoop nodes Map.empty []) \<and>
         snd (getAllPNodes env w) =
           enrichNodesWithCachedStats env (statsCache w) (dedupLoop nodes Map.empty []) \<and>
         distinct (map pubkey (dedupLoop nodes Map.empty [])) \<and>
         (\<forall>n \<in> set (dedupLoop nodes Map.empty []). truthy (pubkey n)) \<and>
         pubkey ` set (dedupLoop nodes Map.empty []) = {p \<in> pubkey ` set nodes. truthy p} \<and>
         (\<forall>n \<in> set (dedupLoop nodes Map.empty []).
            find (\<lambda>m. pubkey m = pubkey n) nodes = Some n) \<and>
         subseq (dedupLoop nodes Map.empty []) nodes \<and>
         (\<forall>returned. snd (getAllPNodes env w) = Inr returned \<longrightarrow> distinct (map pubkey returned))"
proof -
  let ?u = "dedupLoop nodes Map.empty []"
  have u: "?u = keepFirst {} nodes" by (simp add: dedupLoop_keepFirst)
  have w1: "statsCache w1 = statsCache w"
    using discover_world[of env w] assms(2) by (auto simp: logged_def)
  have res: "getAllPNodes env w =
      (w1\<lparr>nodeCache := cache_set (nodeCache w1) CACHE_KEY ?u CACHE_TTL_MS\<rparr>,
       enrichNodesWithCachedStats env (statsCache w) ?u)"
    using getAllPNodes_miss[OF assms(1,2)] w1 by simp
  have c1: "cache_get (nodeCache (fst (getAllPNodes env w))) CACHE_KEY = Some ?u"
    by (simp add: res cache_get_def cache_set_def)
  have c2: "snd (getAllPNodes env w) = enrichNodesWithCachedStats env (statsCache w) ?u"
    by (simp add: res)
  have c3: "distinct (map pubkey ?u)" by (simp add: u keepFirst_distinct)
  have c5: "pubkey ` set ?u = {p \<in> pubkey ` set nodes. truthy p}"
    by (simp add: u keepFirst_pubkeys)
  have c4: "\<forall>n \<in> set ?u. truthy (pubkey n)" using c5 by blast
  have c6: "\<forall>n \<in> set ?u. find (\<lambda>m. pubkey m = pubkey n) nodes = Some n"
    by (simp add: u keepFirst_first)
  have c7: "subseq ?u nodes" by (simp add: u keepFirst_subseq)
  have c8: "\<forall>returned. snd (getAllPNodes env w) = Inr returned \<longrightarrow> distinct (map pubkey returned)"
    using assms(3) c2 c3 by metis
  show ?thesis using c1 c2 c3 c4 c5 c6 c7 c8 by blast
qed

theorem getAllPNodes_miss_deduplicates_witness:
  "cache_get (nodeCache emptyWorld) CACHE_KEY = None \<and>
   discoverPNodesViaGossip scenarioA emptyWorld =
     (afterPrimary,
      Inr [mkNode ''X'' ''10.0.0.1:9001'' Online, mkNode ''Y'' ''10.0.0.2:9001'' Online,
           mkNode ''X'' ''10.0.0.3:9001'' Online]) \<and>
   dedupLoop [mkNode ''X'' ''10.0.0.1:9001'' Online, mkNode ''Y'' ''10.0.0.2:9001'' Online,
              mkNode ''X'' ''10.0.0.3:9001'' Online] Map.empty [] =
     [mkNode ''X'' ''10.0.0.1:9001'' Online, mkNode ''Y'' ''10.0.0.2:9001'' Online] \<and>
   cache_get (nodeCache (fst (getAllPNodes scenarioA emptyWorld))) CACHE_KEY =
     Some (dedupLoop [mkNode ''X'' ''10.0.0.1:9001'' Online, mkNode ''Y'' ''10.0.0.2:9001'' Online,
                      mkNode ''X'' ''10.0.0.3:9001'' Online] Map.empty []) \<and>
   snd (getAllPNodes scenarioA emptyWorld) =
     Inr [mkNode ''X'' ''10.0.0.1:9001'' Online, mkNode ''Y'' ''10.0.0.2:9001'' Online] \<and>
   distinct (map pubkey
     [mkNode ''X'' ''10.0.0.1:9001'' Online, mkNode ''Y'' ''10.0.0.2:9001'' Online])"
proof -
  let ?nodes = "[mkNode ''X'' ''10.0.0.1:9001'' Online, mkNode ''Y'' ''10.0.0.2:9001'' Online,
                 mkNode ''X'' ''10.0.0.3:9001'' Online]"
  have h1: "cache_get (nodeCache emptyWorld) CACHE_KEY = None"
    by (simp add: example_defs model_defs)
  have h2: "discoverPNodesViaGossip scenarioA emptyWorld = (afterPrimary, Inr ?nodes)"
    by (simp add: example_defs model_defs)
  have keep: "pubkey (mergeStats c n) = pubkey n" for c n
    by (simp add: mergeStats_def split: option.splits)
  have h3: "\<forall>c xs ys. enrichNodesWithCachedStats scenarioA c xs = Inr ys \<longrightarrow>
      map pubkey ys = map pubkey xs"
    by (auto simp: scenarioA_def exampleEnrich_def keep)
  have d: "dedupLoop ?nodes Map.empty [] =
     [mkNode ''X'' ''10.0.0.1:9001'' Online, mkNode ''Y'' ''10.0.0.2:9001'' Online]"
    by (simp add: mkNode_def)
  have r: "snd (getAllPNodes scenarioA emptyWorld) =
     Inr [mkNode ''X'' ''10.0.0.1:9001'' Online, mkNode ''Y'' ''10.0.0.2:9001'' Online]"
    by (simp add: example_defs model_defs)
  show ?thesis
    using getAllPNodes_miss_deduplicates[OF h1 h2 h3] h1 h2 d r by blast
qed

subsection \<open>C3\<close>

text \<open>
  Claim C3. When the primary endpoint yields no usable node (both requests throw, or every
  record is dropped), the seeds after the first are queried in their order up to and
  including the first one that yields a usable node; the result is that seed's usable
  nodes, and no later seed is queried.
\<close>

theorem fallback_first_usable:
  assumes "usableOf env (primaryResponse env) = []"
      and "drop 1 (SEED_IPS env) = pre @ seed # post"
      and "\<forall>s \<in> set pre. usableOf env (fallbackPods env s) = []"
      and "usableOf env (fallbackPods env seed) \<noteq> []"
  shows "snd (discoverPNodesViaGossip env w) = Inr (usableOf env (fallbackPods env seed)) \<and>
         calls (fst (discoverPNodesViaGossip env w)) =
           calls w @ primaryCalls env @ map FallbackGetPods (pre @ [seed])"
  using assms fallbackLoop_first[OF assms(3,4), of post "logged w (primaryCalls env)"]
  by (simp add: discover_eq logged_def del: One_nat_def)

theorem fallback_first_usable_witness:
  "usableOf scenarioB (primaryResponse scenarioB) = [] \<and>
   drop 1 (SEED_IPS scenarioB) = [] @ ''161.97.97.41'' # [''192.190.136.36'', ''192.190.136.38''] \<and>
   length (usableOf scenarioB (fallbackPods scenarioB ''161.97.97.41'')) = 5 \<and>
   snd (discoverPNodesViaGossip scenarioB emptyWorld) =
     Inr (usableOf scenarioB (fallbackPods scenarioB ''161.97.97.41'')) \<and>
   calls (fst (discoverPNodesViaGossip scenarioB emptyWorld)) =
     calls emptyWorld @ primaryCalls scenarioB @ map FallbackGetPods ([] @ [''161.97.97.41'']) \<and>
   usableOf scenarioB2 (primaryResponse scenarioB2) = [] \<and>
   drop 1 (SEED_IPS scenarioB2) = [''161.97.97.41''] @ ''192.190.136.36'' # [''192.190.136.38''] \<and>
   usableOf scenarioB2 (fallbackPods scenarioB2 ''161.97.97.41'') = [] \<and>
   snd (discoverPNodesViaGossip scenarioB2 emptyWorld) =
     Inr (usableOf scenarioB2 (fallbackPods scenarioB2 ''192.190.136.36'')) \<and>
   calls (fst (discoverPNodesViaGossip scenarioB2 emptyWorld)) =
     calls emptyWorld @ primaryCalls scenarioB2 @
       map FallbackGetPods ([''161.97.97.41''] @ [''192.190.136.36''])"
proof -
  have a1: "usableOf scenarioB (primaryResponse scenarioB) = []"
    by (simp add: example_defs model_defs)
  have a2: "drop 1 (SEED_IPS scenarioB) =
      [] @ ''161.97.97.41'' # [''192.190.136.36'', ''192.190.136.38'']"
    by (simp add: example_defs)
  have a3: "\<forall>s \<in> set []. usableOf scenarioB (fallbackPods scenarioB s) = []"
    by simp
  have a5: "length (usableOf scenarioB (fallbackPods scenarioB ''161.97.97.41'')) = 5"
    by (simp add: example_defs model_defs)
  have a4: "usableOf scenarioB (fallbackPods scenarioB ''161.97.97.41'') \<noteq> []"
    using a5 by auto
  have b1: "usableOf scenarioB2 (primaryResponse scenarioB2) = []"
    by (simp add: example_defs model_defs)
  have b2: "drop 1 (SEED_IPS scenarioB2) =
      [''161.97.97.41''] @ ''192.190.136.36'' # [''192.190.136.38'']"
    by (simp add: example_defs)
  have b3: "\<forall>s \<in> set [''161.97.97.41'']. usableOf scenarioB2 (fallbackPods scenarioB2 s) = []"
    by (simp add: example_defs model_defs)
  have b4: "usableOf scenarioB2 (fallbackPods scenarioB2 ''192.190.136.36'') \<noteq> []"
    by (simp add: example_defs model_defs)
  show ?thesis
    using fallback_first_usable[OF a1 a2 a3 a4, of emptyWorld]
      fallback_first_usable[OF b1 b2 b3 b4, of emptyWorld] a1 a2 a5 b1 b2 b3
    by simp
qed

subsection \<open>C4\<close>

text \<open>
  Claim C4. \<^verbatim>\<open>discoverPNodesViaGossip\<close> never throws; when the primary endpoint and every
  fallback seed throw or yield no usable record, it returns the empty list; and a record
  whose normalization throws is skipped without affecting the records before and after it.
\<close>

theorem discover_total_failure:
  "(\<exists>ns. snd (discoverPNodesViaGossip env w) = Inr ns) \<and>
   (usableOf env (primaryResponse env) = [] \<and>
    (\<forall>s \<in> set (drop 1 (SEED_IPS env)). usableOf env (fallbackPods env s) = []) \<longrightarrow>
      snd (discoverPNodesViaGossip env w) = Inr []) \<and>
   (\<forall>e. normalizePNode env bad = Inl e \<longrightarrow>
      processPods (normalizePNode env) (before @ bad # after) [] =
        processPods (normalizePNode env) before [] @ processPods (normalizePNode env) after [])"
proof -
  have a: "\<exists>ns. snd (discoverPNodesViaGossip env w) = Inr ns"
    using discover_returns[of env w] by auto
  have b: "usableOf env (primaryResponse env) = [] \<and>
    (\<forall>s \<in> set (drop 1 (SEED_IPS env)). usableOf env (fallbackPods env s) = []) \<longrightarrow>
      snd (discoverPNodesViaGossip env w) = Inr []"
    using fallbackLoop_exhausted[of "drop 1 (SEED_IPS env)" env "logged w (primaryCalls env)"]
    by (simp add: discover_eq del: One_nat_def)
  have c: "\<forall>e. normalizePNode env bad = Inl e \<longrightarrow>
      processPods (normalizePNode env) (before @ bad # after) [] =
        processPods (normalizePNode env) before [] @ processPods (normalizePNode env) after []"
    using processPods_acc[of "normalizePNode env" after "processPods (normalizePNode env) before []"]
    by (simp add: processPods_append)
  show ?thesis using a b c by blast
qed

theorem discover_total_failure_witness:
  "usableOf scenarioDown (primaryResponse scenarioDown) = [] \<and>
   drop 1 (SEED_IPS scenarioDown) = [''161.97.97.41'', ''192.190.136.36'', ''192.190.136.38''] \<and>
   usableOf scenarioDown (fallbackPods scenarioDown ''161.97.97.41'') = [] \<and>
   usableOf scenarioDown (fallbackPods scenarioDown ''192.190.136.36'') = [] \<and>
   usableOf scenarioDown (fallbackPods scenarioDown ''192.190.136.38'') = [] \<and>
   snd (discoverPNodesViaGossip scenarioDown emptyWorld) = Inr [] \<and>
   normalizePNode scenarioDown (''A'', '''') = Inl (Error ''malformed record'') \<and>
   processPods (normalizePNode scenarioDown)
     ([(''X'', ''10.0.0.1:9001'')] @ (''A'', '''') # [(''Y'', ''10.0.0.2:9001'')]) [] =
     processPods (normalizePNode scenarioDown) [(''X'', ''10.0.0.1:9001'')] [] @
     processPods (normalizePNode scenarioDown) [(''Y'', ''10.0.0.2:9001'')] []"
proof -
  have h1: "usableOf scenarioDown (primaryResponse scenarioDown) = []"
    by (simp add: example_defs model_defs)
  have h2: "\<forall>s \<in> set (drop 1 (SEED_IPS scenarioDown)).
      usableOf scenarioDown (fallbackPods scenarioDown s) = []"
    by (simp add: example_defs model_defs)
  have h3: "normalizePNode scenarioDown (''A'', '''') = Inl (Error ''malformed record'')"
    by (simp add: example_defs)
  have h4: "drop 1 (SEED_IPS scenarioDown) =
      [''161.97.97.41'', ''192.190.136.36'', ''192.190.136.38'']"
    by (simp add: example_defs)
  have h5: "usableOf scenarioDown (fallbackPods scenarioDown ''161.97.97.41'') = []"
    "usableOf scenarioDown (fallbackPods scenarioDown ''192.190.136.36'') = []"
    "usableOf scenarioDown (fallbackPods scenarioDown ''192.190.136.38'') = []"
    by (simp_all add: example_defs model_defs)
  show ?thesis
    using discover_total_failure[of scenarioDown emptyWorld "(''A'', '''')"
        "[(''X'', ''10.0.0.1:9001'')]" "[(''Y'', ''10.0.0.2:9001'')]"] h1 h2 h3 h4 h5
    by blast
qed

subsection \<open>C5\<close>

text \<open>
  Claim C5, as the code has it. When the node that the lookup finds for a pubkey is not
  online, \<^verbatim>\<open>getNodeStatsByPubkey\<close> sends no request to a single node and leaves the stats
  cache as it is; it returns the entry of the stats cache under the pubkey's key when there
  is one, and \<^verbatim>\<open>null\<close> otherwise.
\<close>

theorem offline_node_no_fetch:
  assumes "getPNodeByPubkey env key w = (w1, Inr (Some node))"
      and "status node \<noteq> Online"
  shows "snd (getNodeStatsByPubkey env key w) =
           Inr (cache_get (statsCache w) (stats_cache_key key)) \<and>
         statsFetches (fst (getNodeStatsByPubkey env key w)) = statsFetches w \<and>
         statsCache (fst (getNodeStatsByPubkey env key w)) = statsCache w"
proof (cases "cache_get (statsCache w) (stats_cache_key key)")
  case None
  have "getNodeStatsByPubkey env key w = (w1, Inr None)"
    using assms None
    by (simp add: getNodeStatsByPubkey_def try_catch_def await_then_def statsOfFound_def resolve_def)
  then show ?thesis
    using None getPNodeByPubkey_world[of env key w] assms(1) by simp
next
  case (Some cached)
  then show ?thesis by (simp add: getNodeStatsByPubkey_def)
qed

theorem offline_node_no_fetch_witness:
  "getPNodeByPubkey scenarioA ''X'' offlineWorld =
     (offlineWorld, Inr (Some (mkNode ''X'' ''10.0.0.1:9001'' Offline))) \<and>
   status (mkNode ''X'' ''10.0.0.1:9001'' Offline) \<noteq> Online \<and>
   cache_get (statsCache offlineWorld) (stats_cache_key ''X'') = None \<and>
   snd (getNodeStatsByPubkey scenarioA ''X'' offlineWorld) =
     Inr (cache_get (statsCache offlineWorld) (stats_cache_key ''X'')) \<and>
   statsFetches (fst (getNodeStatsByPubkey scenarioA ''X'' offlineWorld)) =
     statsFetches offlineWorld"
proof -
  have h1: "getPNodeByPubkey scenarioA ''X'' offlineWorld =
     (offlineWorld, Inr (Some (mkNode ''X'' ''10.0.0.1:9001'' Offline)))"
    by (simp add: example_defs model_defs)
  have h2: "status (mkNode ''X'' ''10.0.0.1:9001'' Offline) \<noteq> Online"
    by (simp add: mkNode_def)
  have h3: "cache_get (statsCache offlineWorld) (stats_cache_key ''X'') = None"
    by (simp add: example_defs model_defs)
  show ?thesis
    using offline_node_no_fetch[OF h1 h2] h1 h2 h3 by blast
qed

text \<open>
  An offline node whose stats are still cached: the lookup finds the node offline, and the
  stats call answers the cached stats instead of \<^verbatim>\<open>null\<close>.
\<close>

theorem offline_cached_counterexample:
  "snd (getPNodeByPubkey scenarioA ''X'' offlineCachedWorld) =
     Inr (Some ((mkNode ''X'' ''10.0.0.1:9001'' Offline)
                  \<lparr>ramUsed := Some 2048, ramTotal := Some 8192\<rparr>)) \<and>
   status ((mkNode ''X'' ''10.0.0.1:9001'' Offline)
             \<lparr>ramUsed := Some 2048, ramTotal := Some 8192\<rparr>) \<noteq> Online \<and>
   snd (getNodeStatsByPubkey scenarioA ''X'' offlineCachedWorld) = Inr (Some exampleStats) \<and>
   snd (getNodeStatsByPubkey scenarioA ''X'' offlineCachedWorld) \<noteq> Inr None"
  by (simp add: example_defs model_defs)

subsection \<open>C6\<close>

text \<open>
  Claim C6, as the code has it. In \<^verbatim>\<open>verifyPRPCSource\<close> the threshold is the constant 300
  seconds, whatever threshold is configured. For a timestamp that is not zero and lies
  within the range of a \<^verbatim>\<open>Date\<close>, the status is online exactly when
  \<open>now - lastObservedAt\<close> is below 300 seconds, the rounding down to whole seconds
  notwithstanding: 299 seconds after the observation a node is online, 300 and 301 seconds
  after it is offline. Deriving the status again from the same \<open>now\<close> and the same timestamp
  gives the same status. A missing or zero timestamp derives no status, and a timestamp
  beyond the range of a \<^verbatim>\<open>Date\<close> ends in a \<^verbatim>\<open>RangeError\<close> instead of a status.
\<close>

theorem online_threshold:
  "(ts \<noteq> 0 \<and> abs (ts * 1000) \<le> MAX_TIME_VALUE \<longrightarrow>
      derivedStatus now (Some ts) =
        Inr (Some (if spec_online 300 now (ts * 1000) then Online else Offline)) \<and>
      (derivedStatus now (Some ts) = Inr (Some Online) \<longleftrightarrow> now - ts * 1000 < 300 * 1000) \<and>
      derivedStatus (ts * 1000 + 299 * 1000) (Some ts) = Inr (Some Online) \<and>
      derivedStatus (ts * 1000 + 300 * 1000) (Some ts) = Inr (Some Offline) \<and>
      derivedStatus (ts * 1000 + 301 * 1000) (Some ts) = Inr (Some Offline)) \<and>
   (now1 = now2 \<and> ts1 = ts2 \<longrightarrow> derivedStatus now1 ts1 = derivedStatus now2 ts2) \<and>
   derivedStatus now None = Inr None \<and>
   derivedStatus now (Some 0) = Inr None \<and>
   (MAX_TIME_VALUE < abs (ts * 1000) \<longrightarrow>
      derivedStatus now (Some ts) = Inl (Error ''RangeError: Invalid time value''))"
proof -
  have floor: "(n - t) div 1000 < 300 \<longleftrightarrow> n - t < 300 * 1000" for n t :: int
    by linarith
  have valid: "derivedStatus n (Some t) =
      Inr (Some (if n - t * 1000 < 300 * 1000 then Online else Offline))"
    if "t \<noteq> 0" "abs (t * 1000) \<le> MAX_TIME_VALUE" for n t
    using that
    by (simp add: derivedStatus_def newDate_def secondsAgo_def isOnline_def toISOString_def
        floor Let_def)
  have a: "ts \<noteq> 0 \<and> abs (ts * 1000) \<le> MAX_TIME_VALUE \<longrightarrow>
      derivedStatus now (Some ts) =
        Inr (Some (if spec_online 300 now (ts * 1000) then Online else Offline)) \<and>
      (derivedStatus now (Some ts) = Inr (Some Online) \<longleftrightarrow> now - ts * 1000 < 300 * 1000) \<and>
      derivedStatus (ts * 1000 + 299 * 1000) (Some ts) = Inr (Some Online) \<and>
      derivedStatus (ts * 1000 + 300 * 1000) (Some ts) = Inr (Some Offline) \<and>
      derivedStatus (ts * 1000 + 301 * 1000) (Some ts) = Inr (Some Offline)"
    by (simp add: valid spec_online_def)
  have b: "now1 = now2 \<and> ts1 = ts2 \<longrightarrow> derivedStatus now1 ts1 = derivedStatus now2 ts2"
    by simp
  have c: "derivedStatus now None = Inr None" "derivedStatus now (Some 0) = Inr None"
    by (simp_all add: derivedStatus_def)
  have d: "MAX_TIME_VALUE < abs (ts * 1000) \<longrightarrow>
      derivedStatus now (Some ts) = Inl (Error ''RangeError: Invalid time value'')"
    by (auto simp: derivedStatus_def newDate_def toISOString_def Let_def MAX_TIME_VALUE_def)
  show ?thesis using a b c d by blast
qed

theorem online_threshold_witness:
  "(1700000000::int) \<noteq> 0 \<and>
   abs ((1700000000::int) * 1000) \<le> MAX_TIME_VALUE \<and>
   derivedStatus 1700000299999 (Some 1700000000) = Inr (Some Online) \<and>
   derivedStatus (1700000000 * 1000 + 299 * 1000) (Some 1700000000) = Inr (Some Online) \<and>
   derivedStatus (1700000000 * 1000 + 300 * 1000) (Some 1700000000) = Inr (Some Offline) \<and>
   derivedStatus (1700000000 * 1000 + 301 * 1000) (Some 1700000000) = Inr (Some Offline) \<and>
   MAX_TIME_VALUE < abs ((8640000000001::int) * 1000) \<and>
   derivedStatus 1700000000000 (Some 8640000000001) =
     Inl (Error ''RangeError: Invalid time value'')"
proof -
  have h1: "(1700000000::int) \<noteq> 0" by simp
  have h2: "abs ((1700000000::int) * 1000) \<le> MAX_TIME_VALUE"
    by (simp add: MAX_TIME_VALUE_def)
  have h3: "MAX_TIME_VALUE < abs ((8640000000001::int) * 1000)"
    by (simp add: MAX_TIME_VALUE_def)
  have h4: "spec_online 300 1700000299999 (1700000000 * 1000)"
    by (simp add: spec_online_def)
  show ?thesis
    using online_threshold[where ts = 1700000000 and now = 1700000299999]
      online_threshold[where ts = 8640000000001 and now = 1700000000000] h1 h2 h3 h4
    by presburger
qed

text \<open>
  Two inputs at which the rule of the claim and the script part. With a threshold of 600
  seconds configured, a node observed 400 seconds ago is online by the rule and offline in
  the script. For a timestamp beyond the range of a \<^verbatim>\<open>Date\<close>, far in the future, the rule
  says online; the script finds it not online and throws before it prints a status.
\<close>

theorem online_threshold_counterexample:
  "spec_online 600 1700000400000 (1700000000 * 1000) \<and>
   derivedStatus 1700000400000 (Some 1700000000) = Inr (Some Offline) \<and>
   spec_online 300 1700000000000 (8640000000001 * 1000) \<and>
   \<not> isOnline (secondsAgo 1700000000000 (newDate (8640000000001 * 1000))) \<and>
   derivedStatus 1700000000000 (Some 8640000000001) =
     Inl (Error ''RangeError: Invalid time value'')"
  by (simp add: spec_online_def derivedStatus_def newDate_def secondsAgo_def isOnline_def
      toISOString_def MAX_TIME_VALUE_def Let_def)

subsection \<open>C7\<close>

text \<open>
  Claim C7. Both return paths of \<^verbatim>\<open>getAllPNodes\<close> return what the enrichment merge
  returns: on a hit, the merge of the cached list; on a miss, the merge of the deduplicated
  discovery, after that list has been written to the node-set cache.
\<close>

theorem getAllPNodes_always_enriches:
  "(\<forall>cached. cache_get (nodeCache w) CACHE_KEY = Some cached \<longrightarrow>
      getAllPNodes env w = (w, enrichNodesWithCachedStats env (statsCache w) cached)) \<and>
   (cache_get (nodeCache w) CACHE_KEY = None \<longrightarrow>
      (\<exists>w1 nodes. discoverPNodesViaGossip env w = (w1, Inr nodes) \<and>
         cache_get (nodeCache (fst (getAllPNodes env w))) CACHE_KEY =
           Some (dedupLoop nodes Map.empty []) \<and>
         snd (getAllPNodes env w) =
           enrichNodesWithCachedStats env (statsCache (fst (getAllPNodes env w)))
             (dedupLoop nodes Map.empty [])))"
proof -
  have hit: "\<forall>cached. cache_get (nodeCache w) CACHE_KEY = Some cached \<longrightarrow>
      getAllPNodes env w = (w, enrichNodesWithCachedStats env (statsCache w) cached)"
    by (simp add: getAllPNodes_hit)
  have miss: "cache_get (nodeCache w) CACHE_KEY = None \<longrightarrow>
      (\<exists>w1 nodes. discoverPNodesViaGossip env w = (w1, Inr nodes) \<and>
         cache_get (nodeCache (fst (getAllPNodes env w))) CACHE_KEY =
           Some (dedupLoop nodes Map.empty []) \<and>
         snd (getAllPNodes env w) =
           enrichNodesWithCachedStats env (statsCache (fst (getAllPNodes env w)))
             (dedupLoop nodes Map.empty []))"
  proof
    assume m: "cache_get (nodeCache w) CACHE_KEY = None"
    obtain w1 nodes where d: "discoverPNodesViaGossip env w = (w1, Inr nodes)"
      using discover_returns by blast
    show "\<exists>w1 nodes. discoverPNodesViaGossip env w = (w1, Inr nodes) \<and>
         cache_get (nodeCache (fst (getAllPNodes env w))) CACHE_KEY =
           Some (dedupLoop nodes Map.empty []) \<and>
         snd (getAllPNodes env w) =
           enrichNodesWithCachedStats env (statsCache (fst (getAllPNodes env w)))
             (dedupLoop nodes Map.empty [])"
      using d getAllPNodes_miss[OF m d] by (simp add: cache_get_def cache_set_def)
  qed
  show ?thesis using hit miss by blast
qed

theorem getAllPNodes_always_enriches_witness:
  "cache_get (nodeCache offlineWorld) CACHE_KEY = Some [mkNode ''X'' ''10.0.0.1:9001'' Offline] \<and>
   getAllPNodes scenarioA offlineWorld =
     (offlineWorld,
      enrichNodesWithCachedStats scenarioA (statsCache offlineWorld)
        [mkNode ''X'' ''10.0.0.1:9001'' Offline]) \<and>
   cache_get (nodeCache emptyWorld) CACHE_KEY = None \<and>
   (\<exists>w1 nodes. discoverPNodesViaGossip scenarioA emptyWorld = (w1, Inr nodes) \<and>
      cache_get (nodeCache (fst (getAllPNodes scenarioA emptyWorld))) CACHE_KEY =
        Some (dedupLoop nodes Map.empty []) \<and>
      snd (getAllPNodes scenarioA emptyWorld) =
        enrichNodesWithCachedStats scenarioA (statsCache (fst (getAllPNodes scenarioA emptyWorld)))
          (dedupLoop nodes Map.empty []))"
proof -
  have h1: "cache_get (nodeCache offlineWorld) CACHE_KEY =
      Some [mkNode ''X'' ''10.0.0.1:9001'' Offline]"
    by (simp add: example_defs model_defs)
  have h2: "cache_get (nodeCache emptyWorld) CACHE_KEY = None"
    by (simp add: example_defs model_defs)
  show ?thesis
    using getAllPNodes_always_enriches[of offlineWorld scenarioA]
      getAllPNodes_always_enriches[of emptyWorld scenarioA] h1 h2
    by blast
qed

subsection \<open>C8\<close>

text \<open>
  Claim C8. \<^verbatim>\<open>getNodeStatsByPubkey\<close> changes the stats cache only by writing the stats of a
  successful fetch under \<^verbatim>\<open>node_stats_<pubkey>\<close> with a TTL of 120000 ms. Where the fetch
  is reached and throws, the call returns \<^verbatim>\<open>null\<close> and the stats cache is unchanged; where
  it succeeds, the stats are returned and written.
\<close>

theorem stats_cached_only_on_success:
  "(statsCache (fst (getNodeStatsByPubkey env key w)) \<noteq> statsCache w \<longrightarrow>
      (\<exists>host s. nodeStats env host = Inr (Some s) \<and>
         snd (getNodeStatsByPubkey env key w) = Inr (Some s) \<and>
         statsCache (fst (getNodeStatsByPubkey env key w)) =
           cache_set (statsCache w) (stats_cache_key key) s STATS_CACHE_TTL_MS)) \<and>
   (cache_get (statsCache w) (stats_cache_key key) = None \<and>
    getPNodeByPubkey env key w = (w1, Inr (Some node)) \<and> status node = Online \<and>
    or_else (address node) (ip node) = Some a \<and> a \<noteq> [] \<longrightarrow>
      (\<forall>e. nodeStats env (host_of a) = Inl e \<longrightarrow>
         snd (getNodeStatsByPubkey env key w) = Inr None \<and>
         statsCache (fst (getNodeStatsByPubkey env key w)) = statsCache w) \<and>
      (\<forall>s. nodeStats env (host_of a) = Inr (Some s) \<longrightarrow>
         snd (getNodeStatsByPubkey env key w) = Inr (Some s) \<and>
         statsCache (fst (getNodeStatsByPubkey env key w)) =
           (statsCache w)(''node_stats_'' @ key \<mapsto> (s, 120000))) \<and>
      calls (fst (getNodeStatsByPubkey env key w)) = calls w1 @ [NodeGetStats (host_of a)])"
proof -
  have a: "statsCache (fst (getNodeStatsByPubkey env key w)) \<noteq> statsCache w \<longrightarrow>
      (\<exists>host s. nodeStats env host = Inr (Some s) \<and>
         snd (getNodeStatsByPubkey env key w) = Inr (Some s) \<and>
         statsCache (fst (getNodeStatsByPubkey env key w)) =
           cache_set (statsCache w) (stats_cache_key key) s STATS_CACHE_TTL_MS)"
    using getNodeStats_only_success_writes by blast
  have b: "(\<forall>e. nodeStats env (host_of a) = Inl e \<longrightarrow>
         snd (getNodeStatsByPubkey env key w) = Inr None \<and>
         statsCache (fst (getNodeStatsByPubkey env key w)) = statsCache w) \<and>
      (\<forall>s. nodeStats env (host_of a) = Inr (Some s) \<longrightarrow>
         snd (getNodeStatsByPubkey env key w) = Inr (Some s) \<and>
         statsCache (fst (getNodeStatsByPubkey env key w)) =
           (statsCache w)(''node_stats_'' @ key \<mapsto> (s, 120000))) \<and>
      calls (fst (getNodeStatsByPubkey env key w)) = calls w1 @ [NodeGetStats (host_of a)]"
    if h: "cache_get (statsCache w) (stats_cache_key key) = None"
      "getPNodeByPubkey env key w = (w1, Inr (Some node))" "status node = Online"
      "or_else (address node) (ip node) = Some a" "a \<noteq> []"
  proof -
    have w1: "statsCache w1 = statsCache w"
      using getPNodeByPubkey_world[of env key w] h(2) by simp
    have s: "statsOfFound env key (Some node) w1 = fetchAndCacheStats env key a w1"
      using h(3,4,5) by (simp add: statsOfFound_def)
    have g: "getNodeStatsByPubkey env key w =
        (case fetchAndCacheStats env key a w1 of
             (w2, Inl e) \<Rightarrow> (w2, Inr None)
           | (w2, Inr v) \<Rightarrow> (w2, Inr v))"
      using getNodeStats_miss[OF h(1,2)] s by simp
    show ?thesis
      by (auto simp: g fetchAndCacheStats_eq logged_def w1 cache_set_def stats_cache_key_def
          STATS_CACHE_TTL_MS_def split: sum.splits option.splits)
  qed
  show ?thesis using a b by blast
qed

theorem stats_cached_only_on_success_witness:
  "statsCache (fst (getNodeStatsByPubkey scenarioA ''X'' emptyWorld)) \<noteq> statsCache emptyWorld \<and>
   cache_get (statsCache emptyWorld) (stats_cache_key ''X'') = None \<and>
   getPNodeByPubkey scenarioA ''X'' emptyWorld =
     (afterListing, Inr (Some (mkNode ''X'' ''10.0.0.1:9001'' Online))) \<and>
   status (mkNode ''X'' ''10.0.0.1:9001'' Online) = Online \<and>
   or_else (address (mkNode ''X'' ''10.0.0.1:9001'' Online))
     (ip (mkNode ''X'' ''10.0.0.1:9001'' Online)) = Some ''10.0.0.1:9001'' \<and>
   nodeStats scenarioA (host_of ''10.0.0.1:9001'') = Inr (Some exampleStats) \<and>
   snd (getNodeStatsByPubkey scenarioA ''X'' emptyWorld) = Inr (Some exampleStats) \<and>
   statsCache (fst (getNodeStatsByPubkey scenarioA ''X'' emptyWorld)) =
     (statsCache emptyWorld)(''node_stats_'' @ ''X'' \<mapsto> (exampleStats, 120000)) \<and>
   cache_get (statsCache emptyWorld) (stats_cache_key ''Y'') = None \<and>
   getPNodeByPubkey scenarioA ''Y'' emptyWorld =
     (afterListing, Inr (Some (mkNode ''Y'' ''10.0.0.2:9001'' Online))) \<and>
   nodeStats scenarioA (host_of ''10.0.0.2:9001'') = Inl (Error ''timeout'') \<and>
   snd (getNodeStatsByPubkey scenarioA ''Y'' emptyWorld) = Inr None \<and>
   statsCache (fst (getNodeStatsByPubkey scenarioA ''Y'' emptyWorld)) = statsCache emptyWorld"
proof -
  let ?x = "mkNode ''X'' ''10.0.0.1:9001'' Online"
  let ?y = "mkNode ''Y'' ''10.0.0.2:9001'' Online"
  have m: "cache_get (statsCache emptyWorld) (stats_cache_key k) = None" for k
    by (simp add: example_defs model_defs)
  have x1: "getPNodeByPubkey scenarioA ''X'' emptyWorld = (afterListing, Inr (Some ?x))"
    by (simp add: example_defs model_defs)
  have x2: "status ?x = Online" by (simp add: mkNode_def)
  have x3: "or_else (address ?x) (ip ?x) = Some ''10.0.0.1:9001''"
    by (simp add: mkNode_def or_else_def)
  have x4: "''10.0.0.1:9001'' \<noteq> []" by simp
  have x5: "nodeStats scenarioA (host_of ''10.0.0.1:9001'') = Inr (Some exampleStats)"
    by (simp add: scenarioA_def host_of_def)
  have y1: "getPNodeByPubkey scenarioA ''Y'' emptyWorld = (afterListing, Inr (Some ?y))"
    by (simp add: example_defs model_defs)
  have y2: "status ?y = Online" by (simp add: mkNode_def)
  have y3: "or_else (address ?y) (ip ?y) = Some ''10.0.0.2:9001''"
    by (simp add: mkNode_def or_else_def)
  have y4: "''10.0.0.2:9001'' \<noteq> []" by simp
  have y5: "nodeStats scenarioA (host_of ''10.0.0.2:9001'') = Inl (Error ''timeout'')"
    by (simp add: scenarioA_def host_of_def)
  note X = stats_cached_only_on_success[of scenarioA "''X''" emptyWorld afterListing ?x
      "''10.0.0.1:9001''"]
  note Y = stats_cached_only_on_success[of scenarioA "''Y''" emptyWorld afterListing ?y
      "''10.0.0.2:9001''"]
  have xs: "snd (getNodeStatsByPubkey scenarioA ''X'' emptyWorld) = Inr (Some exampleStats) \<and>
      statsCache (fst (getNodeStatsByPubkey scenarioA ''X'' emptyWorld)) =
        (statsCache emptyWorld)(''node_stats_'' @ ''X'' \<mapsto> (exampleStats, 120000))"
    using X m x1 x2 x3 x4 x5 by blast
  then have changed: "statsCache (fst (getNodeStatsByPubkey scenarioA ''X'' emptyWorld)) \<noteq>
      statsCache emptyWorld"
    by (simp add: emptyWorld_def)
  have ys: "snd (getNodeStatsByPubkey scenarioA ''Y'' emptyWorld) = Inr None \<and>
      statsCache (fst (getNodeStatsByPubkey scenarioA ''Y'' emptyWorld)) = statsCache emptyWorld"
    using Y m y1 y2 y3 y4 y5 by blast
  show ?thesis
    using xs changed ys m x1 x2 x3 x5 y1 y5 by blast
qed

subsection \<open>C9\<close>

text \<open>
  Claim C9. \<^verbatim>\<open>getPNodeByPubkey\<close> is \<^verbatim>\<open>find\<close> over what \<^verbatim>\<open>getAllPNodes\<close> returns, leaving
  the world as \<^verbatim>\<open>getAllPNodes\<close> leaves it: the first node of the listing with the pubkey,
  and \<^verbatim>\<open>null\<close>, not an exception, when the listing has none.
\<close>

theorem lookup_is_find_over_listing:
  assumes "getAllPNodes env w = (w', Inr nodes)"
  shows "getPNodeByPubkey env key w = (w', Inr (find (\<lambda>node. pubkey node = Some key) nodes)) \<and>
         ((\<forall>n \<in> set nodes. pubkey n \<noteq> Some key) \<longrightarrow>
            getPNodeByPubkey env key w = (w', Inr None)) \<and>
         (\<forall>n. snd (getPNodeByPubkey env key w) = Inr (Some n) \<longrightarrow>
            (\<exists>i < length nodes. nodes ! i = n \<and> pubkey n = Some key \<and>
               (\<forall>j < i. pubkey (nodes ! j) \<noteq> Some key)))"
proof -
  have a: "getPNodeByPubkey env key w = (w', Inr (find (\<lambda>node. pubkey node = Some key) nodes))"
    using assms by (simp add: getPNodeByPubkey_eq)
  have b: "(\<forall>n \<in> set nodes. pubkey n \<noteq> Some key) \<longrightarrow> getPNodeByPubkey env key w = (w', Inr None)"
    by (simp add: a find_None_iff)
  have c: "\<forall>n. snd (getPNodeByPubkey env key w) = Inr (Some n) \<longrightarrow>
            (\<exists>i < length nodes. nodes ! i = n \<and> pubkey n = Some key \<and>
               (\<forall>j < i. pubkey (nodes ! j) \<noteq> Some key))"
    by (auto simp: a find_Some_iff)
  show ?thesis using a b c by blast
qed

theorem lookup_is_find_over_listing_witness:
  "getAllPNodes scenarioA emptyWorld =
     (afterListing,
      Inr [mkNode ''X'' ''10.0.0.1:9001'' Online, mkNode ''Y'' ''10.0.0.2:9001'' Online]) \<and>
   getPNodeByPubkey scenarioA ''Y'' emptyWorld =
     (afterListing,
      Inr (find (\<lambda>node. pubkey node = Some ''Y'')
        [mkNode ''X'' ''10.0.0.1:9001'' Online, mkNode ''Y'' ''10.0.0.2:9001'' Online])) \<and>
   getPNodeByPubkey scenarioA ''Z'' emptyWorld = (afterListing, Inr None)"
proof -
  let ?nodes = "[mkNode ''X'' ''10.0.0.1:9001'' Online, mkNode ''Y'' ''10.0.0.2:9001'' Online]"
  have h1: "getAllPNodes scenarioA emptyWorld = (afterListing, Inr ?nodes)"
    by (simp add: example_defs model_defs)
  have h2: "\<forall>n \<in> set ?nodes. pubkey n \<noteq> Some ''Z''"
    by (simp add: mkNode_def)
  show ?thesis
    using lookup_is_find_over_listing[OF h1, of "''Y''"]
      lookup_is_find_over_listing[OF h1, of "''Z''"] h1 h2
    by blast
qed

subsection \<open>C10\<close>

text \<open>
  Claim C10. In the summary of any list of map nodes the country counts add up to the
  number of map nodes, so do the region counts, and both lists are in non-increasing order
  of count.
\<close>

theorem geo_summary_conserves_counts:
  "sum_list (map snd (countries (getGeoSummary mapNodes))) = length mapNodes
  \<and> sum_list (map snd (regions (getGeoSummary mapNodes))) = length mapNodes
  \<and> sorted_wrt (\<lambda>a b. a \<ge> b) (map snd (countries (getGeoSummary mapNodes)))
  \<and> sorted_wrt (\<lambda>a b. a \<ge> b) (map snd (regions (getGeoSummary mapNodes)))"
  by (simp add: getGeoSummary_def Let_def sum_sortByCountDesc sum_countBy sorted_sortByCountDesc)

theorem geo_summary_conserves_counts_witness:
  "sum_list (map snd (countries (getGeoSummary
     [\<lparr>nodePubkey = Some ''a'', country = ''Germany'', region = ''Hesse''\<rparr>,
      \<lparr>nodePubkey = Some ''b'', country = ''USA'', region = ''Ohio''\<rparr>,
      \<lparr>nodePubkey = Some ''c'', country = ''USA'', region = ''Texas''\<rparr>]))) = 3"
  using geo_summary_conserves_counts[of "[\<lparr>nodePubkey = Some ''a'', country = ''Germany'', region = ''Hesse''\<rparr>,
      \<lparr>nodePubkey = Some ''b'', country = ''USA'', region = ''Ohio''\<rparr>,
      \<lparr>nodePubkey = Some ''c'', country = ''USA'', region = ''Texas''\<rparr>]"]
  by simp

end
